theory Spec2Isabelle
  imports Main "HOL-Library.Char_ord" "HOL-Library.List_Lexorder" "HOL-Library.AList"
    "HOL-Library.Multiset" "HOL-Library.Sublist"
begin

section \<open>Python strings\<close>

text \<open>
  A Python \<open>str\<close> is modelled as a \<open>string\<close>, a list of characters, each standing for
  the code point of its number: the model covers the texts whose code points are below 256.
  The built-in string operations the script calls are written out as Python defines them on
  these code points. The order on strings is the lexicographic order on code points, which
  is how Python compares \<open>str\<close> values.
\<close>

text \<open>
  \<open>str.lower\<close>: the letters \<open>A\<close> to \<open>Z\<close> and the capital letters \<open>0xC0\<close> to \<open>0xDE\<close>
  (but for the multiplication sign \<open>0xD7\<close>) move up by 32; the other characters stay.
\<close>

definition lower_char :: "char \<Rightarrow> char" where
  "lower_char c =
     (let n = (of_char c :: nat)
      in if (65 \<le> n \<and> n \<le> 90) \<or> (192 \<le> n \<and> n \<le> 222 \<and> n \<noteq> 215) then char_of (n + 32) else c)"

definition lower :: "string \<Rightarrow> string" where
  "lower s = map lower_char s"

definition endswith :: "string \<Rightarrow> string \<Rightarrow> bool" where
  "endswith s suf \<longleftrightarrow> length suf \<le> length s \<and> drop (length s - length suf) s = suf"

text \<open>\<open>name.lower().endswith((".html", ".htm"))\<close>: a tuple of suffixes, any of which may match.\<close>

definition is_html_name :: "string \<Rightarrow> bool" where
  "is_html_name name \<longleftrightarrow> endswith (lower name) ''.html'' \<or> endswith (lower name) ''.htm''"

section \<open>The file system and the libraries, as the script sees them\<close>

text \<open>
  The script reaches the world only through library calls. What they answer is not decided by
  the script, so it is a parameter of the model: \<open>isdir\<close>, \<open>isfile\<close> and \<open>walk\<close> are
  \<open>os.path.isdir\<close>, \<open>os.path.isfile\<close> and \<open>os.walk\<close> (the list of
  \<open>(root, dirnames, filenames)\<close> triples it yields), and \<open>path_join\<close> is
  \<open>os.path.join\<close>.
\<close>

record os_env =
  isdir :: "string \<Rightarrow> bool"
  isfile :: "string \<Rightarrow> bool"
  walk :: "string \<Rightarrow> (string \<times> string list \<times> string list) list"
  path_join :: "string \<Rightarrow> string \<Rightarrow> string"

subsection \<open>\<open>gather_files\<close>\<close>

text \<open>
  The two inner loops over \<open>os.walk(path)\<close>: every file name of every visited directory
  that ends in \<open>.html\<close> or \<open>.htm\<close> after lower-casing is joined to its directory and appended.
\<close>

fun walk_html :: "os_env \<Rightarrow> (string \<times> string list \<times> string list) list \<Rightarrow> string list" where
  "walk_html os [] = []"
| "walk_html os ((root, dirnames, filenames) # rest) =
     map (path_join os root) (filter is_html_name filenames) @ walk_html os rest"

definition skip_message :: "string \<Rightarrow> string" where
  "skip_message path = ''Skipping non-existent path: '' @ path"

text \<open>
  The outer loop, with the list \<open>files\<close> and the lines printed so far as its state. The
  branches are tried in the order of the source: directory, then regular file, then the
  message for a path that is neither.
\<close>

fun gather_loop :: "os_env \<Rightarrow> string list \<Rightarrow> string list \<times> string list \<Rightarrow> string list \<times> string list" where
  "gather_loop os [] acc = acc"
| "gather_loop os (path # paths) (files, printed) =
     (if isdir os path then gather_loop os paths (files @ walk_html os (walk os path), printed)
      else if isfile os path then gather_loop os paths (files @ [path], printed)
      else gather_loop os paths (files, printed @ [skip_message path]))"

text \<open>\<open>gather_files\<close> returns \<open>sorted(files)\<close>; the second component is what it printed.\<close>

definition gather_files :: "os_env \<Rightarrow> string list \<Rightarrow> string list \<times> string list" where
  "gather_files os paths = (case gather_loop os paths ([], []) of (files, printed) \<Rightarrow> (sort files, printed))"

text \<open>What one path argument contributes to \<open>files\<close>, and what it prints.\<close>

definition path_files :: "os_env \<Rightarrow> string \<Rightarrow> string list" where
  "path_files os path =
     (if isdir os path then walk_html os (walk os path)
      else if isfile os path then [path] else [])"

definition path_printed :: "os_env \<Rightarrow> string \<Rightarrow> string list" where
  "path_printed os path = (if isdir os path \<or> isfile os path then [] else [skip_message path])"

text \<open>
  An example tree: the directory \<open>site\<close> holds \<open>notes.txt\<close> and \<open>Page.HTML\<close>, the files
  \<open>readme.txt\<close> and \<open>blank.html\<close> stand beside it, and nothing else exists.
\<close>

definition example_os :: os_env where
  "example_os =
     \<lparr> isdir = (\<lambda>p. p = ''site''),
       isfile = (\<lambda>p. p = ''readme.txt'' \<or> p = ''blank.html'' \<or> p = ''site/notes.txt''
                      \<or> p = ''site/Page.HTML''),
       walk = (\<lambda>p. if p = ''site'' then [(''site'', [], [''notes.txt'', ''Page.HTML''])] else []),
       path_join = (\<lambda>root name. root @ ''/'' @ name) \<rparr>"

section \<open>More Python string operations\<close>

text \<open>
  \<open>str.isspace\<close>, which decides what \<open>str.strip\<close> removes: tab, line feed, vertical tab,
  form feed, carriage return, the four separators \<open>0x1C\<close> to \<open>0x1F\<close>, the space, the
  next-line character \<open>0x85\<close> and the no-break space \<open>0xA0\<close>.
\<close>

definition isspace :: "char \<Rightarrow> bool" where
  "isspace c =
     (let n = (of_char c :: nat)
      in (9 \<le> n \<and> n \<le> 13) \<or> (28 \<le> n \<and> n \<le> 32) \<or> n = 133 \<or> n = 160)"

definition strip :: "string \<Rightarrow> string" where
  "strip s = rev (dropWhile isspace (rev (dropWhile isspace s)))"

text \<open>
  \<open>str.splitlines\<close>: a line ends at a line feed, a carriage return (with the line feed
  after it, if any), a vertical tab, a form feed, one of the separators \<open>0x1C\<close> to
  \<open>0x1E\<close> or the next-line character \<open>0x85\<close>; the line ends are dropped, and no empty
  last line is added.
\<close>

definition is_linebreak :: "char \<Rightarrow> bool" where
  "is_linebreak c =
     (let n = (of_char c :: nat) in (10 \<le> n \<and> n \<le> 13) \<or> (28 \<le> n \<and> n \<le> 30) \<or> n = 133)"

fun splitlines_from :: "string \<Rightarrow> string \<Rightarrow> string list" where
  "splitlines_from cur [] = (if cur = [] then [] else [cur])"
| "splitlines_from cur (c # cs) =
     (if is_linebreak c
      then cur # splitlines_from []
             (if c = CHR 0x0D \<and> cs \<noteq> [] \<and> hd cs = CHR 0x0A then tl cs else cs)
      else splitlines_from (cur @ [c]) cs)"

definition splitlines :: "string \<Rightarrow> string list" where
  "splitlines s = splitlines_from [] s"

text \<open>\<open>sep.join(xs)\<close>.\<close>

fun join :: "string \<Rightarrow> string list \<Rightarrow> string" where
  "join sep [] = []"
| "join sep [x] = x"
| "join sep (x # y # ys) = x @ sep @ join sep (y # ys)"

text \<open>\<open>os.path.basename\<close> (POSIX): what follows the last slash.\<close>

definition basename :: "string \<Rightarrow> string" where
  "basename p = rev (takeWhile (\<lambda>c. c \<noteq> CHR ''/'') (rev p))"

section \<open>The parsed document\<close>

text \<open>
  \<open>BeautifulSoup(html_content, "html.parser")\<close> gives a tree: the children of the document.
  \<open>Text\<close> is a string of the page that \<open>get_text\<close> reports; \<open>Comment\<close> is a string node
  of the kinds \<open>get_text\<close> leaves out (comments, declarations); \<open>Elem\<close> is a tag with its
  name, its attributes and its children. The parser itself is a parameter of the model.
\<close>

datatype node =
    Text string
  | Comment string
  | Elem string "(string \<times> string) list" "node list"

fun tag_name :: "node \<Rightarrow> string option" where
  "tag_name (Elem t as cs) = Some t"
| "tag_name _ = None"

text \<open>\<open>tag.get(key)\<close>.\<close>

fun attr :: "node \<Rightarrow> string \<Rightarrow> string option" where
  "attr (Elem t as cs) k = map_of as k"
| "attr _ k = None"

fun contents :: "node \<Rightarrow> node list" where
  "contents (Elem t as cs) = cs"
| "contents _ = []"

text \<open>
  \<open>soup.find(...)\<close>: the first tag, in document order (a tag before its descendants, before
  its later siblings), that the test accepts; \<open>None\<close> when there is none.
\<close>

fun find_first :: "(node \<Rightarrow> bool) \<Rightarrow> node list \<Rightarrow> node option" where
  "find_first P [] = None"
| "find_first P (Elem t as cs # ns) =
     (if P (Elem t as cs) then Some (Elem t as cs)
      else case find_first P cs of Some n \<Rightarrow> Some n | None \<Rightarrow> find_first P ns)"
| "find_first P (n # ns) = find_first P ns"

text \<open>\<open>soup([names])\<close>, that is \<open>find_all\<close>: every tag with one of the names, in document order.\<close>

fun find_all :: "string list \<Rightarrow> node list \<Rightarrow> node list" where
  "find_all names [] = []"
| "find_all names (Elem t as cs # ns) =
     (if t \<in> set names then [Elem t as cs] else []) @ find_all names cs @ find_all names ns"
| "find_all names (n # ns) = find_all names ns"

text \<open>
  \<open>for tag in soup([names]): tag.decompose()\<close>: each tag found is taken out of the tree
  with everything below it. A found tag that lies inside another found tag is gone once
  the outer one is, so the loop leaves the tree without any tag of these names.
\<close>

fun decompose_all :: "string list \<Rightarrow> node list \<Rightarrow> node list" where
  "decompose_all names [] = []"
| "decompose_all names (Elem t as cs # ns) =
     (if t \<in> set names then decompose_all names ns
      else Elem t as (decompose_all names cs) # decompose_all names ns)"
| "decompose_all names (n # ns) = n # decompose_all names ns"

text \<open>
  \<open>found = soup.find(tag)\<close> followed by \<open>found.decompose()\<close>: the tree without the
  first tag of that name and its subtree; \<open>None\<close> when \<open>find\<close> returns \<open>None\<close>.
\<close>

fun decompose_first :: "string \<Rightarrow> node list \<Rightarrow> node list option" where
  "decompose_first tag [] = None"
| "decompose_first tag (Elem t as cs # ns) =
     (if t = tag then Some ns
      else case decompose_first tag cs of
             Some cs' \<Rightarrow> Some (Elem t as cs' # ns)
           | None \<Rightarrow> map_option ((#) (Elem t as cs)) (decompose_first tag ns))"
| "decompose_first tag (Text v # ns) = map_option ((#) (Text v)) (decompose_first tag ns)"
| "decompose_first tag (Comment v # ns) = map_option ((#) (Comment v)) (decompose_first tag ns)"

text \<open>The body of the second loop of \<open>clean_html\<close>: \<open>if found: found.decompose()\<close>.\<close>

definition remove_found :: "node list \<Rightarrow> string \<Rightarrow> node list" where
  "remove_found soup tag = (case decompose_first tag soup of Some soup' \<Rightarrow> soup' | None \<Rightarrow> soup)"

text \<open>The strings \<open>get_text\<close> joins, in document order.\<close>

fun strings_of :: "node list \<Rightarrow> string list" where
  "strings_of [] = []"
| "strings_of (Text s # ns) = s # strings_of ns"
| "strings_of (Comment s # ns) = strings_of ns"
| "strings_of (Elem t as cs # ns) = strings_of cs @ strings_of ns"

definition get_text :: "string \<Rightarrow> node list \<Rightarrow> string" where
  "get_text sep ns = join sep (strings_of ns)"

text \<open>
  \<open>tag.string\<close>: the only child when it is a string (of either kind), the \<open>.string\<close> of
  the only child when it is a tag, and \<open>None\<close> when the tag has no child or several.
\<close>

fun dot_string :: "node \<Rightarrow> string option" where
  "dot_string (Elem t as [Text s]) = Some s"
| "dot_string (Elem t as [Comment s]) = Some s"
| "dot_string (Elem t as [Elem t' as' cs]) = dot_string (Elem t' as' cs)"
| "dot_string _ = None"

subsection \<open>\<open>clean_html\<close>\<close>

definition newline :: string where
  "newline = [CHR 0x0A]"

definition clean_soup :: "node list \<Rightarrow> node list" where
  "clean_soup soup =
     foldl remove_found (decompose_all [''script'', ''style'', ''noscript''] soup)
       [''header'', ''footer'', ''nav'', ''aside'', ''form'']"

definition clean_html :: "(string \<Rightarrow> node list) \<Rightarrow> string \<Rightarrow> string \<times> node list" where
  "clean_html parser html_content =
     (let soup = clean_soup (parser html_content);
          text = get_text newline soup;
          lines = map strip (filter (\<lambda>line. strip line \<noteq> []) (splitlines text))
      in (join newline lines, soup))"

subsection \<open>\<open>extract_metadata\<close>\<close>

text \<open>
  A JSON value, as far as the script builds them. A Python \<open>dict\<close> keeps its keys in
  insertion order and an assignment to a key that is there replaces the value in place:
  this is \<open>AList.update\<close> on an association list.
\<close>

datatype json = JStr string | JInt int | JObj "(string \<times> json) list"

type_synonym metadata = "(string \<times> json) list"

definition is_tag :: "string \<Rightarrow> node \<Rightarrow> bool" where
  "is_tag name n \<longleftrightarrow> tag_name n = Some name"

text \<open>
  The white-space separated words of an attribute value: the parser stores the \<open>class\<close>
  attribute as this list, and \<open>find(class_=c)\<close> accepts a tag when \<open>c\<close> is one of them.
\<close>

fun words_from :: "string \<Rightarrow> string \<Rightarrow> string list" where
  "words_from cur [] = (if cur = [] then [] else [cur])"
| "words_from cur (c # cs) =
     (if isspace c then (if cur = [] then [] else [cur]) @ words_from [] cs
      else words_from (cur @ [c]) cs)"

definition has_class :: "string \<Rightarrow> node \<Rightarrow> bool" where
  "has_class c n \<longleftrightarrow> (case attr n ''class'' of Some v \<Rightarrow> c \<in> set (words_from [] v) | None \<Rightarrow> False)"

text \<open>The five blocks of \<open>extract_metadata\<close>, each taking the dictionary built so far.\<close>

definition meta_title :: "node list \<Rightarrow> metadata \<Rightarrow> metadata" where
  "meta_title soup meta =
     (case find_first (is_tag ''title'') soup of
        Some title \<Rightarrow>
          (case dot_string title of
             Some s \<Rightarrow> if s \<noteq> [] then AList.update ''title'' (JStr (strip s)) meta else meta
           | None \<Rightarrow> meta)
      | None \<Rightarrow> meta)"

definition meta_author :: "node list \<Rightarrow> metadata \<Rightarrow> metadata" where
  "meta_author soup meta =
     (case find_first (\<lambda>n. is_tag ''meta'' n \<and> attr n ''name'' = Some ''author'') soup of
        Some author_tag \<Rightarrow>
          (case attr author_tag ''content'' of
             Some c \<Rightarrow> if c \<noteq> [] then AList.update ''author'' (JStr (strip c)) meta else meta
           | None \<Rightarrow> meta)
      | None \<Rightarrow> meta)"

definition meta_author_span :: "node list \<Rightarrow> metadata \<Rightarrow> metadata" where
  "meta_author_span soup meta =
     (if ''author'' \<notin> set (map fst meta)
      then (case find_first (has_class ''author'') soup of
              Some author_span \<Rightarrow>
                AList.update ''author'' (JStr (strip (get_text '' '' (contents author_span)))) meta
            | None \<Rightarrow> meta)
      else meta)"

definition meta_time :: "node list \<Rightarrow> metadata \<Rightarrow> metadata" where
  "meta_time soup meta =
     (case find_first (is_tag ''time'') soup of
        Some time_tag \<Rightarrow>
          AList.update ''date''
            (JStr (strip (case attr time_tag ''datetime'' of
                            Some d \<Rightarrow> d
                          | None \<Rightarrow> get_text [] (contents time_tag)))) meta
      | None \<Rightarrow> meta)"

definition meta_published :: "node list \<Rightarrow> metadata \<Rightarrow> metadata" where
  "meta_published soup meta =
     (case find_first (\<lambda>n. is_tag ''meta'' n \<and> attr n ''property'' = Some ''article:published_time'') soup of
        Some date_meta \<Rightarrow>
          (case attr date_meta ''content'' of
             Some c \<Rightarrow> if c \<noteq> [] then AList.update ''date'' (JStr (strip c)) meta else meta
           | None \<Rightarrow> meta)
      | None \<Rightarrow> meta)"

definition extract_metadata :: "node list \<Rightarrow> metadata" where
  "extract_metadata soup =
     meta_published soup (meta_time soup (meta_author_span soup (meta_author soup (meta_title soup []))))"

section \<open>Processing\<close>

text \<open>
  The rest of the world the script calls into. \<open>read_bytes\<close> is opening the input file and
  reading what it holds: its bytes, or the text of the exception raised. \<open>decode_ignore\<close>
  is the text layer the file is opened with, \<open>encoding='utf-8', errors='ignore'\<close>: it
  gives a text for every sequence of bytes, leaving out the bytes that are not UTF-8, and it
  never raises. \<open>html_parser\<close> is the parser behind
  \<open>BeautifulSoup(html_content, "html.parser")\<close>. \<open>text_splitter\<close> is the constructor
  \<open>RecursiveCharacterTextSplitter(chunk_size, chunk_overlap)\<close> of the splitting library: it
  raises, or returns a splitter, which is modelled by its method \<open>split_text\<close>.
  \<open>open_output\<close> is \<open>open(args.output, "w")\<close>: \<open>None\<close> when the file opens, the text of
  the exception otherwise.
\<close>

type_synonym splitter = "string \<Rightarrow> string list"

type_synonym bytes = "char list"

record libs =
  filesystem :: os_env
  read_bytes :: "string \<Rightarrow> string + bytes"
  decode_ignore :: "bytes \<Rightarrow> string"
  html_parser :: "string \<Rightarrow> node list"
  text_splitter :: "int \<Rightarrow> int \<Rightarrow> string + splitter"
  open_output :: "string \<Rightarrow> string option"

text \<open>
  The \<open>try\<close> block of \<open>process_file\<close>,
  \<open>with open(file_path, 'r', encoding='utf-8', errors='ignore') as f: raw = f.read()\<close>:
  the exception of the open or of the read, or the text decoded with errors ignored.
\<close>

definition read_text :: "libs \<Rightarrow> string \<Rightarrow> string + string" where
  "read_text lib file_path =
     (case read_bytes lib file_path of
        Inl e \<Rightarrow> Inl e
      | Inr content \<Rightarrow> Inr (decode_ignore lib content))"

text \<open>
  What a run has done so far: the objects written to the output handle, one for each line
  \<open>json.dumps(entry, ensure_ascii=False) + "\n"\<close>, the lines printed, and the input files
  it has tried to open.
\<close>

record run =
  written :: "json list"
  printed :: "string list"
  opened :: "string list"

definition read_warning :: "string \<Rightarrow> string \<Rightarrow> string" where
  "read_warning file_path e = ''Warning: could not read file '' @ file_path @ '': '' @ e"

definition empty_note :: "string \<Rightarrow> string" where
  "empty_note file_path = ''Note: no content extracted from '' @ file_path"

text \<open>The dictionary \<open>entry\<close> built in the loop over \<open>enumerate(chunks)\<close>.\<close>

definition entry :: "metadata \<Rightarrow> nat \<times> string \<Rightarrow> json" where
  "entry meta ic =
     JObj [(''content'', JStr (snd ic)),
           (''metadata'', JObj (AList.update ''chunk'' (JInt (int (fst ic))) meta))]"

text \<open>
  The metadata of a file: what \<open>extract_metadata\<close> found, then \<open>filename\<close>, then \<open>source\<close>
  when \<open>source_url\<close> is given and not empty.
\<close>

definition file_metadata :: "node list \<Rightarrow> string \<Rightarrow> string option \<Rightarrow> metadata" where
  "file_metadata soup file_path source_url =
     (let meta = AList.update ''filename'' (JStr (basename file_path)) (extract_metadata soup)
      in case source_url of
           Some url \<Rightarrow> if url \<noteq> [] then AList.update ''source'' (JStr url) meta else meta
         | None \<Rightarrow> meta)"

definition process_file :: "libs \<Rightarrow> string \<Rightarrow> splitter \<Rightarrow> string option \<Rightarrow> run \<Rightarrow> run" where
  "process_file lib file_path split_text source_url st =
     (case read_text lib file_path of
        Inl e \<Rightarrow>
          st\<lparr>printed := printed st @ [read_warning file_path e],
             opened := opened st @ [file_path]\<rparr>
      | Inr raw \<Rightarrow>
          (case clean_html (html_parser lib) raw of
             (text, soup) \<Rightarrow>
               if text = []
               then st\<lparr>printed := printed st @ [empty_note file_path],
                       opened := opened st @ [file_path]\<rparr>
               else
                 let meta = file_metadata soup file_path source_url;
                     chunks = split_text text
                 in st\<lparr>written := written st @ map (entry meta) (List.enumerate 0 chunks),
                       opened := opened st @ [file_path]\<rparr>))"

text \<open>The loop of \<open>main\<close> over the files, with \<open>source_url = None\<close>.\<close>

fun process_files :: "libs \<Rightarrow> splitter \<Rightarrow> string list \<Rightarrow> run \<Rightarrow> run" where
  "process_files lib split_text [] st = st"
| "process_files lib split_text (file_path # files) st =
     process_files lib split_text files (process_file lib file_path split_text None st)"

subsection \<open>\<open>main\<close>\<close>

text \<open>
  How a run of \<open>main\<close> ends: it returns after the loop, it returns early because no input
  file was found, or an exception of a library call leaves it.
\<close>

datatype ending = Done | No_input_files | Raised string

record outcome =
  ending :: ending
  stdout :: "string list"
  output_file :: "json list option"
  files_opened :: "string list"

definition main :: "libs \<Rightarrow> string list \<Rightarrow> string \<Rightarrow> int \<Rightarrow> int \<Rightarrow> outcome" where
  "main lib input output chunk_size chunk_overlap =
     (case gather_files (filesystem lib) input of
        (files, msgs) \<Rightarrow>
          if files = []
          then \<lparr>ending = No_input_files, stdout = msgs @ [''No input files found.''],
                output_file = None, files_opened = []\<rparr>
          else
            (case text_splitter lib chunk_size chunk_overlap of
               Inl e \<Rightarrow>
                 \<lparr>ending = Raised e, stdout = msgs, output_file = None, files_opened = []\<rparr>
             | Inr split_text \<Rightarrow>
                 (case open_output lib output of
                    Some e \<Rightarrow>
                      \<lparr>ending = Raised e, stdout = msgs, output_file = None, files_opened = []\<rparr>
                  | None \<Rightarrow>
                      let st = process_files lib split_text files
                                 \<lparr>written = [], printed = msgs, opened = []\<rparr>
                      in \<lparr>ending = Done,
                          stdout = printed st @ [''Done. Output written to '' @ output],
                          output_file = Some (written st),
                          files_opened = opened st\<rparr>)))"

section \<open>Notions used to state the properties\<close>

text \<open>
  A tree written out in document order: a token for the start of each tag, for each string
  and for the end of each tag. Removing a subtree removes a block of consecutive tokens.
\<close>

datatype token = Open string "(string \<times> string) list" | Str string | Cmt string | Close string

fun flat :: "node list \<Rightarrow> token list" where
  "flat [] = []"
| "flat (Text s # ns) = Str s # flat ns"
| "flat (Comment s # ns) = Cmt s # flat ns"
| "flat (Elem t as cs # ns) = Open t as # flat cs @ Close t # flat ns"

fun is_open :: "string \<Rightarrow> token \<Rightarrow> bool" where
  "is_open tag (Open t as) = (t = tag)"
| "is_open tag _ = False"

text \<open>The strings among the tokens: what \<open>get_text\<close> joins.\<close>

fun token_strings :: "token list \<Rightarrow> string list" where
  "token_strings [] = []"
| "token_strings (Str v # r) = v # token_strings r"
| "token_strings (Open t as # r) = token_strings r"
| "token_strings (Cmt v # r) = token_strings r"
| "token_strings (Close t # r) = token_strings r"

text \<open>
  Reading the tokens of a document from left to right and leaving out every tag of the given
  names together with all that stands between its start and its end: \<open>d\<close> counts the tags
  that are open inside the one being left out.
\<close>

fun drop_inside :: "string list \<Rightarrow> nat \<Rightarrow> token list \<Rightarrow> token list" where
  "drop_inside tags d [] = []"
| "drop_inside tags d (Open t as # r) =
     (if 0 < d then drop_inside tags (Suc d) r
      else if t \<in> set tags then drop_inside tags 1 r
      else Open t as # drop_inside tags 0 r)"
| "drop_inside tags d (Close t # r) =
     (if 0 < d then drop_inside tags (d - 1) r else Close t # drop_inside tags 0 r)"
| "drop_inside tags d (Str v # r) =
     (if 0 < d then drop_inside tags d r else Str v # drop_inside tags 0 r)"
| "drop_inside tags d (Cmt v # r) =
     (if 0 < d then drop_inside tags d r else Cmt v # drop_inside tags 0 r)"

text \<open>The number of tags of a name in a tree.\<close>

definition count_tag :: "string \<Rightarrow> node list \<Rightarrow> nat" where
  "count_tag tag ns = length (filter (is_open tag) (flat ns))"

text \<open>A dictionary with distinct keys whose values are all strings.\<close>

definition str_valued :: "metadata \<Rightarrow> bool" where
  "str_valued m \<longleftrightarrow>
     distinct (map fst m) \<and> list_all (\<lambda>kv. case snd kv of JStr s \<Rightarrow> True | _ \<Rightarrow> False) m"

text \<open>
  Whether a sequence of bytes is UTF-8 text, that is, whether decoding it without
  \<open>errors='ignore'\<close> would succeed: every byte below \<open>0x80\<close> stands alone, and every
  other character is a lead byte followed by one, two or three continuation bytes, in the
  ranges of the standard (no overlong form, no surrogate, nothing above \<open>U+10FFFF\<close>).
\<close>

definition continuation :: "nat \<Rightarrow> bool" where
  "continuation b \<longleftrightarrow> 128 \<le> b \<and> b \<le> 191"

definition second_of_three :: "nat \<Rightarrow> nat \<Rightarrow> bool" where
  "second_of_three lead b \<longleftrightarrow>
     (if lead = 224 then 160 \<le> b \<and> b \<le> 191
      else if lead = 237 then 128 \<le> b \<and> b \<le> 159
      else continuation b)"

definition second_of_four :: "nat \<Rightarrow> nat \<Rightarrow> bool" where
  "second_of_four lead b \<longleftrightarrow>
     (if lead = 240 then 144 \<le> b \<and> b \<le> 191
      else if lead = 244 then 128 \<le> b \<and> b \<le> 143
      else continuation b)"

fun utf8_ok :: "nat list \<Rightarrow> bool" where
  "utf8_ok [] = True"
| "utf8_ok (b # bs) =
     (if b < 128 then utf8_ok bs
      else if 194 \<le> b \<and> b \<le> 223
      then (case bs of c # r \<Rightarrow> continuation c \<and> utf8_ok r | _ \<Rightarrow> False)
      else if 224 \<le> b \<and> b \<le> 239
      then (case bs of c # d # r \<Rightarrow> second_of_three b c \<and> continuation d \<and> utf8_ok r | _ \<Rightarrow> False)
      else if 240 \<le> b \<and> b \<le> 244
      then (case bs of
              c # d # e # r \<Rightarrow>
                second_of_four b c \<and> continuation d \<and> continuation e \<and> utf8_ok r
            | _ \<Rightarrow> False)
      else False)"

definition valid_utf8 :: "bytes \<Rightarrow> bool" where
  "valid_utf8 content \<longleftrightarrow> utf8_ok (map of_char content)"

text \<open>The records one call of \<open>process_file\<close> writes: what it adds to an empty output.\<close>

definition file_records :: "libs \<Rightarrow> string \<Rightarrow> splitter \<Rightarrow> string option \<Rightarrow> json list" where
  "file_records lib file_path split_text source_url =
     written (process_file lib file_path split_text source_url \<lparr>written = [], printed = [], opened = []\<rparr>)"

text \<open>Reading a record back: a member of an object, the chunk index and the content.\<close>

fun member_of :: "json \<Rightarrow> string \<Rightarrow> json option" where
  "member_of (JObj kvs) k = map_of kvs k"
| "member_of _ k = None"

definition chunk_of :: "json \<Rightarrow> json option" where
  "chunk_of r = (case member_of r ''metadata'' of Some m \<Rightarrow> member_of m ''chunk'' | None \<Rightarrow> None)"

definition content_of :: "json \<Rightarrow> json option" where
  "content_of r = member_of r ''content''"

text \<open>
  The two sources of a date: the content of the published-time meta tag, when the first such
  tag has a content that is not empty, and the value of the first \<open>time\<close> tag, its
  \<open>datetime\<close> attribute when it has one and its text otherwise.
\<close>

definition published_time :: "node list \<Rightarrow> string option" where
  "published_time soup =
     (case find_first (\<lambda>n. is_tag ''meta'' n \<and> attr n ''property'' = Some ''article:published_time'') soup of
        Some m \<Rightarrow> (case attr m ''content'' of Some c \<Rightarrow> if c \<noteq> [] then Some c else None | None \<Rightarrow> None)
      | None \<Rightarrow> None)"

definition time_value :: "node list \<Rightarrow> string option" where
  "time_value soup =
     (case find_first (is_tag ''time'') soup of
        Some t \<Rightarrow> Some (case attr t ''datetime'' of Some d \<Rightarrow> d | None \<Rightarrow> get_text [] (contents t))
      | None \<Rightarrow> None)"

section \<open>An example run\<close>

text \<open>
  A page with a title and an author meta tag and no \<open>time\<close> tag; its body has a header
  holding a navigation block, two paragraphs and a second navigation block.
\<close>

definition page_tree :: "node list" where
  "page_tree =
     [Elem ''html'' []
        [Elem ''head'' []
           [Elem ''title'' [] [Text ''Hello''],
            Elem ''meta'' [(''name'', ''author''), (''content'', ''Jane'')] [],
            Elem ''script'' [] [Text ''var x = 1;'']],
         Elem ''body'' []
           [Elem ''header'' [] [Elem ''nav'' [] [Text ''Home'']],
            Elem ''p'' [] [Text ''First line''],
            Elem ''p'' [] [Text ''Second line''],
            Elem ''nav'' [] [Text ''More'']]]]"

text \<open>A page that holds nothing but a script, and a page with both sources of a date.\<close>

definition blank_tree :: "node list" where
  "blank_tree = [Elem ''html'' [] [Elem ''script'' [] [Text ''track();'']]]"


text \<open>
  The libraries of the example: \<open>site/Page.HTML\<close> holds the first page, \<open>blank.html\<close> the
  second, \<open>legacy.html\<close> the first page followed by the byte \<open>0xFF\<close>, which occurs in no
  UTF-8 text, and any other file cannot be read. The files of the example hold ASCII bytes
  and that byte only, and on such bytes decoding with errors ignored keeps the ASCII bytes
  and drops the others. The splitter of the example returns the lines of the text as chunks,
  and its constructor refuses an overlap that is not below the size.
\<close>

definition example_lib :: libs where
  "example_lib =
     \<lparr> filesystem = example_os,
       read_bytes = (\<lambda>p. if p = ''site/Page.HTML'' then Inr ''<html>page</html>''
                         else if p = ''blank.html'' then Inr ''<html>blank</html>''
                         else if p = ''legacy.html'' then Inr (''<html>page</html>'' @ [CHR 0xFF])
                         else Inl ''Permission denied''),
       decode_ignore = filter (\<lambda>c. (of_char c :: nat) < 128),
       html_parser = (\<lambda>raw. if raw = ''<html>page</html>'' then page_tree
                             else if raw = ''<html>blank</html>'' then blank_tree else []),
       text_splitter = (\<lambda>chunk_size chunk_overlap.
                          if chunk_overlap \<ge> chunk_size then Inl ''chunk_overlap must be smaller than chunk_size''
                          else Inr splitlines),
       open_output = (\<lambda>p. None) \<rparr>"

definition empty_run :: run where
  "empty_run = \<lparr>written = [], printed = [], opened = []\<rparr>"

text \<open>A list of tags with two navigation blocks side by side, and a first record of the example.\<close>

definition nav_list :: "node list" where
  "nav_list =
     [Elem ''nav'' [] [Text ''Home''], Elem ''p'' [] [Text ''Body''], Elem ''nav'' [] [Text ''More'']]"

definition page_record :: json where
  "page_record =
     JObj [(''content'', JStr ''Hello''),
           (''metadata'',
            JObj [(''title'', JStr ''Hello''), (''author'', JStr ''Jane''),
                  (''filename'', JStr ''Page.HTML''), (''chunk'', JInt 0)])]"

section \<open>The splitter, from the specification\<close>

text \<open>
  Modelled from the spec: the splitter whose method \<open>split_text\<close> the script calls is the
  class \<open>RecursiveCharacterTextSplitter\<close> of the package \<open>langchain_text_splitters\<close>; its
  code is not part of the repository, which only constructs it and calls it. This is the test
  of the Boundary Splitter (section 4.1) that a separator occurs in a text at least once; the
  empty separator occurs in every text.
\<close>

definition occurs_in :: "string \<Rightarrow> string \<Rightarrow> bool" where
  "occurs_in sep tx \<longleftrightarrow> list_ex (\<lambda>i. take (length sep) (drop i tx) = sep) [0..<Suc (length tx)]"

text \<open>
  Modelled from the spec: the Boundary Splitter (section 4.1), missing with the splitter. It
  returns the first separator of the list that occurs in the text, with the separators of
  lower priority that follow it; when no separator of the list occurs, the empty separator
  is selected.
\<close>

fun select_separator :: "string \<Rightarrow> string list \<Rightarrow> string \<times> string list" where
  "select_separator tx [] = ([], [])"
| "select_separator tx (sep # seps) =
     (if occurs_in sep tx then (sep, seps) else select_separator tx seps)"

text \<open>
  Modelled from the spec: step 3 of the Recursive Chunker (section 4.2), missing with the
  splitter. The text is split on every occurrence of the separator, from left to right; the
  separator is dropped from the fragments.
\<close>

function split_from :: "string \<Rightarrow> string \<Rightarrow> string \<Rightarrow> string list" where
  "split_from sep cur tx =
     (if tx = [] then [cur]
      else if sep \<noteq> [] \<and> take (length sep) tx = sep
      then cur # split_from sep [] (drop (length sep) tx)
      else split_from sep (cur @ [hd tx]) (tl tx))"
  by pat_completeness auto
termination
  by (relation "measure (\<lambda>(sep, cur, tx). length tx)") auto

text \<open>Modelled from the spec: step 3 of section 4.2, the fragments of a text.\<close>

definition split_on :: "string \<Rightarrow> string \<Rightarrow> string list" where
  "split_on sep tx = split_from sep [] tx"

text \<open>
  Modelled from the spec: the overlap of step 4 of section 4.2, missing with the splitter.
  When a buffer has been flushed, the new buffer starts with trailing fragments of the old
  one: the longest run of them that is no longer than the overlap when joined, and that
  leaves room for the next fragment within the chunk size (the overlap is best-effort and
  never makes a chunk exceed the chunk size, section 9).
\<close>

fun carry :: "nat \<Rightarrow> nat \<Rightarrow> string \<Rightarrow> string list \<Rightarrow> string \<Rightarrow> string list" where
  "carry cs co sep [] f = []"
| "carry cs co sep (b # bs) f =
     (if length (join sep (b # bs)) \<le> co \<and> length (join sep ((b # bs) @ [f])) \<le> cs
      then b # bs else carry cs co sep bs f)"

text \<open>
  Modelled from the spec: flushing the buffer in step 4 of section 4.2; the fragments of a
  chunk are joined with the separator they were split on.
\<close>

definition flush :: "string \<Rightarrow> string list \<Rightarrow> string list" where
  "flush sep buf = (if buf = [] then [] else [join sep buf])"

text \<open>
  Modelled from the spec: a fragment as the packing of steps 4 and 5 of section 4.2 meets
  it, either no longer than the chunk size, or longer and already replaced by its sub-chunks.
\<close>

datatype piece = Small string | Chunks "string list"

text \<open>
  Modelled from the spec: steps 4 to 6 of section 4.2, missing with the splitter. Fragments
  are appended to the buffer while the joined buffer stays within the chunk size; otherwise
  the buffer is flushed as a chunk and a new one is started from the overlap and the
  fragment. The sub-chunks of an oversized fragment are spliced in at its place.
\<close>

fun pack :: "nat \<Rightarrow> nat \<Rightarrow> string \<Rightarrow> string list \<Rightarrow> piece list \<Rightarrow> string list" where
  "pack cs co sep buf [] = flush sep buf"
| "pack cs co sep buf (Chunks sub # ps) = flush sep buf @ sub @ pack cs co sep [] ps"
| "pack cs co sep buf (Small f # ps) =
     (if buf = [] then pack cs co sep [f] ps
      else if length (join sep (buf @ [f])) \<le> cs then pack cs co sep (buf @ [f]) ps
      else join sep buf # pack cs co sep (carry cs co sep buf f @ [f]) ps)"

text \<open>
  Modelled from the spec: the fallback cut of section 4.2 for a text no separator divides,
  missing with the splitter. The text is cut into pieces of exactly the chunk size, each
  starting the overlap before the end of the one before it; the last piece is what remains.
  (With an overlap that is not below the chunk size, which the specification excludes, the
  text is returned as it is.)
\<close>

function fallback_cut :: "nat \<Rightarrow> nat \<Rightarrow> string \<Rightarrow> string list" where
  "fallback_cut cs co tx =
     (if length tx \<le> cs \<or> cs \<le> co then [tx]
      else take cs tx # fallback_cut cs co (drop (cs - co) tx))"
  by pat_completeness auto
termination
  by (relation "measure (\<lambda>(cs, co, tx). length tx)") auto

text \<open>
  Modelled from the spec: steps 2 to 6 of the Recursive Chunker (section 4.2) on a text longer
  than the chunk size, missing with the splitter. A separator is selected; the empty one
  leads to the fallback cut; otherwise the text is split on it, every fragment longer than
  the chunk size is split in turn with the separators of lower priority, and the pieces are
  packed.
\<close>

function split_long :: "nat \<Rightarrow> nat \<Rightarrow> string list \<Rightarrow> string \<Rightarrow> string list" where
  "split_long cs co seps tx =
     (case select_separator tx seps of
        (sep, rest) \<Rightarrow>
          if sep = [] then fallback_cut cs co tx
          else pack cs co sep []
                 (map (\<lambda>f. if cs < length f then Chunks (split_long cs co rest f) else Small f)
                    (split_on sep tx)))"
  by pat_completeness auto
termination
proof -
  have shorter: "length rest < length seps"
    if "(sep, rest) = select_separator tx seps" and "sep \<noteq> []" for tx seps sep rest
    using that by (induction seps) (auto split: if_splits)
  show ?thesis
    by (relation "measure (\<lambda>(cs, co, seps, tx). length seps)") (auto dest: shorter)
qed

declare fallback_cut.simps [simp del] split_long.simps [simp del] split_from.simps [simp del]

text \<open>
  Modelled from the spec: the operation \<open>split(text, chunk_size, chunk_overlap, separators)\<close>
  of section 4.2, which stands for the missing \<open>split_text\<close>. An empty text gives no chunk,
  a text within the chunk size is its own single chunk (step 1).
\<close>

definition split_text :: "string \<Rightarrow> nat \<Rightarrow> nat \<Rightarrow> string list \<Rightarrow> string list" where
  "split_text tx cs co seps =
     (if tx = [] then [] else if length tx \<le> cs then [tx] else split_long cs co seps tx)"

text \<open>
  Modelled from the spec: the constructor \<open>RecursiveCharacterTextSplitter(chunk_size,
  chunk_overlap)\<close> that \<open>main\<close> calls, missing with the splitter. A chunk overlap that is
  not below the chunk size and a negative size are configuration errors (sections 4.2 and
  7): the constructor raises. Otherwise it returns the splitter of section 4.2 for these
  sizes and the ranked separators it is built with.
\<close>

definition configuration_error :: string where
  "configuration_error = ''ConfigurationError: invalid chunk size/overlap combination''"

definition RecursiveCharacterTextSplitter :: "string list \<Rightarrow> int \<Rightarrow> int \<Rightarrow> string + splitter" where
  "RecursiveCharacterTextSplitter seps chunk_size chunk_overlap =
     (if chunk_size \<le> chunk_overlap \<or> chunk_size < 0 \<or> chunk_overlap < 0
      then Inl configuration_error
      else Inr (\<lambda>tx. split_text tx (nat chunk_size) (nat chunk_overlap) seps))"

text \<open>The chunks of a list are all within the chunk size.\<close>

definition short :: "nat \<Rightarrow> string list \<Rightarrow> bool" where
  "short cs chunks \<longleftrightarrow> list_all (\<lambda>c. length c \<le> cs) chunks"

fun small_piece :: "nat \<Rightarrow> piece \<Rightarrow> bool" where
  "small_piece cs (Small f) \<longleftrightarrow> length f \<le> cs"
| "small_piece cs (Chunks sub) \<longleftrightarrow> short cs sub"

text \<open>
  The separators of the examples: a blank line, a line end, a space, and the empty
  separator last.
\<close>

definition example_separators :: "string list" where
  "example_separators = [newline @ newline, newline, '' '', []]"

section \<open>Properties of \<open>gather_files\<close>\<close>

lemma gather_loop_acc:
  "gather_loop os paths (files, msgs) =
     (files @ concat (map (path_files os) paths), msgs @ concat (map (path_printed os) paths))"
  by (induction paths arbitrary: files msgs) (simp_all add: path_files_def path_printed_def)

lemma gather_files_eq:
  "gather_files os paths =
     (sort (concat (map (path_files os) paths)), concat (map (path_printed os) paths))"
  by (simp add: gather_files_def gather_loop_acc)

lemma set_walk_html:
  "set (walk_html os ws) =
     {path_join os root name | root dirnames filenames name.
        (root, dirnames, filenames) \<in> set ws \<and> name \<in> set filenames \<and> is_html_name name}"
  by (induction os ws rule: walk_html.induct) (simp, fastforce)

lemma set_path_files:
  "set (path_files os p) =
     (if isdir os p
      then {path_join os root name | root dirnames filenames name.
              (root, dirnames, filenames) \<in> set (walk os p) \<and> name \<in> set filenames \<and> is_html_name name}
      else if isfile os p then {p} else {})"
  by (simp add: path_files_def set_walk_html)

lemma printed_skips:
  "concat (map (path_printed os) paths) =
     map skip_message (filter (\<lambda>p. \<not> isdir os p \<and> \<not> isfile os p) paths)"
  by (induction paths) (simp_all add: path_printed_def)

lemma is_html_name_iff:
  "is_html_name name \<longleftrightarrow>
     (\<exists>stem ext. name = stem @ ext \<and> (lower ext = ''.html'' \<or> lower ext = ''.htm''))"
proof
  assume "is_html_name name"
  then consider "endswith (lower name) ''.html''" | "endswith (lower name) ''.htm''"
    by (auto simp: is_html_name_def)
  then show "\<exists>stem ext. name = stem @ ext \<and> (lower ext = ''.html'' \<or> lower ext = ''.htm'')"
  proof cases
    case 1
    define ext where "ext = drop (length name - length ''.html'') name"
    have "name = take (length name - length ''.html'') name @ ext"
      by (simp add: ext_def)
    moreover have "lower ext = ''.html''"
      using 1 unfolding ext_def endswith_def lower_def drop_map by simp
    ultimately show ?thesis by blast
  next
    case 2
    define ext where "ext = drop (length name - length ''.htm'') name"
    have "name = take (length name - length ''.htm'') name @ ext"
      by (simp add: ext_def)
    moreover have "lower ext = ''.htm''"
      using 2 unfolding ext_def endswith_def lower_def drop_map by simp
    ultimately show ?thesis by blast
  qed
next
  assume "\<exists>stem ext. name = stem @ ext \<and> (lower ext = ''.html'' \<or> lower ext = ''.htm'')"
  then obtain stem ext where n: "name = stem @ ext"
    and e: "lower ext = ''.html'' \<or> lower ext = ''.htm''"
    by blast
  from e have "length (lower ext) = 5 \<and> lower ext = ''.html'' \<or> length (lower ext) = 4 \<and> lower ext = ''.htm''"
    by auto
  then have "length ext = 5 \<and> lower ext = ''.html'' \<or> length ext = 4 \<and> lower ext = ''.htm''"
    by (simp add: lower_def)
  with n show "is_html_name name"
    by (auto simp: is_html_name_def endswith_def lower_def)
qed

text \<open>
  C6. \<open>gather_files\<close> returns a sorted list. Its members are exactly the files that
  \<open>os.walk\<close> lists under a directory argument and whose name ends, once lower-cased, in
  \<open>.html\<close> or \<open>.htm\<close>, together with the arguments that are regular files. A path that
  is neither a directory nor a file is reported with a message, adds nothing to the list and
  does not stop the traversal of the other arguments. The file name test is the
  case-insensitive extension test: a name passes exactly when it ends in an extension that
  lower-cases to \<open>.html\<close> or \<open>.htm\<close>.
\<close>

theorem gather_files_sorted_html_only:
  "sorted (fst (gather_files os paths))
   \<and> set (fst (gather_files os paths)) =
       {path_join os root name | p root dirnames filenames name.
          p \<in> set paths \<and> isdir os p \<and> (root, dirnames, filenames) \<in> set (walk os p)
          \<and> name \<in> set filenames \<and> is_html_name name}
       \<union> {p. p \<in> set paths \<and> \<not> isdir os p \<and> isfile os p}
   \<and> (is_html_name name \<longleftrightarrow>
        (\<exists>stem ext. name = stem @ ext \<and> (lower ext = ''.html'' \<or> lower ext = ''.htm'')))
   \<and> snd (gather_files os paths) =
        map skip_message (filter (\<lambda>p. \<not> isdir os p \<and> \<not> isfile os p) paths)
   \<and> (\<not> isdir os q \<and> \<not> isfile os q \<longrightarrow>
        fst (gather_files os (before @ q # after)) = fst (gather_files os (before @ after)))"
proof -
  have "set (fst (gather_files os paths)) = (\<Union>p \<in> set paths. set (path_files os p))"
    by (simp add: gather_files_eq)
  also have "\<dots> =
       {path_join os root name | p root dirnames filenames name.
          p \<in> set paths \<and> isdir os p \<and> (root, dirnames, filenames) \<in> set (walk os p)
          \<and> name \<in> set filenames \<and> is_html_name name}
       \<union> {p. p \<in> set paths \<and> \<not> isdir os p \<and> isfile os p}"
    unfolding set_path_files by (auto split: if_splits)
  finally have members: "set (fst (gather_files os paths)) =
       {path_join os root name | p root dirnames filenames name.
          p \<in> set paths \<and> isdir os p \<and> (root, dirnames, filenames) \<in> set (walk os p)
          \<and> name \<in> set filenames \<and> is_html_name name}
       \<union> {p. p \<in> set paths \<and> \<not> isdir os p \<and> isfile os p}" .
  have skipped: "\<not> isdir os q \<and> \<not> isfile os q \<longrightarrow>
        fst (gather_files os (before @ q # after)) = fst (gather_files os (before @ after))"
    by (simp add: gather_files_eq path_files_def)
  show ?thesis
    using members skipped is_html_name_iff [of name]
    by (simp add: gather_files_eq printed_skips)
qed

theorem gather_files_sorted_html_only_witness:
  "\<not> isdir example_os ''ghost'' \<and> \<not> isfile example_os ''ghost''
   \<and> fst (gather_files example_os ([''site''] @ ''ghost'' # [])) = fst (gather_files example_os ([''site''] @ []))
   \<and> gather_files example_os [''site'', ''ghost''] =
       ([''site/Page.HTML''], [''Skipping non-existent path: ghost''])
   \<and> walk example_os ''site'' = [(''site'', [], [''notes.txt'', ''Page.HTML''])]"
proof -
  have absent: "\<not> isdir example_os ''ghost'' \<and> \<not> isfile example_os ''ghost''"
    by (simp add: example_os_def)
  have "fst (gather_files example_os ([''site''] @ ''ghost'' # [])) = fst (gather_files example_os ([''site''] @ []))"
    using gather_files_sorted_html_only [where os = example_os and q = "''ghost''" and before = "[''site'']" and after = "[]"] absent
    by blast
  moreover have "gather_files example_os [''site'', ''ghost''] =
       ([''site/Page.HTML''], [''Skipping non-existent path: ghost''])"
    by code_simp
  moreover have "walk example_os ''site'' = [(''site'', [], [''notes.txt'', ''Page.HTML''])]"
    by (simp add: example_os_def)
  ultimately show ?thesis using absent by blast
qed

text \<open>
  C10. A path argument that is a regular file is in the returned list whatever its name:
  the extension test is applied only to the names \<open>os.walk\<close> yields for a directory
  argument.
\<close>

theorem gather_files_keeps_named_file:
  "p \<in> set paths \<Longrightarrow> \<not> isdir os p \<Longrightarrow> isfile os p \<Longrightarrow> p \<in> set (fst (gather_files os paths))"
  by (auto simp: gather_files_eq path_files_def)

theorem gather_files_keeps_named_file_witness:
  "''readme.txt'' \<in> set [''site'', ''readme.txt''] \<and> \<not> isdir example_os ''readme.txt''
   \<and> isfile example_os ''readme.txt'' \<and> \<not> is_html_name ''readme.txt''
   \<and> ''readme.txt'' \<in> set (fst (gather_files example_os [''site'', ''readme.txt'']))"
proof -
  have a: "''readme.txt'' \<in> set [''site'', ''readme.txt'']" by simp
  have b: "\<not> isdir example_os ''readme.txt''" by (simp add: example_os_def)
  have c: "isfile example_os ''readme.txt''" by (simp add: example_os_def)
  have d: "\<not> is_html_name ''readme.txt''" by code_simp
  show ?thesis using gather_files_keeps_named_file [OF a b c] a b c d by blast
qed

section \<open>Properties of \<open>process_file\<close> and of the loop over the files\<close>

lemma process_file_unreadable:
  "read_text lib p = Inl e \<Longrightarrow>
     process_file lib p sp src st =
       st\<lparr>printed := printed st @ [read_warning p e], opened := opened st @ [p]\<rparr>"
  by (simp add: process_file_def)

lemma process_file_empty:
  "read_text lib p = Inr raw \<Longrightarrow> fst (clean_html (html_parser lib) raw) = [] \<Longrightarrow>
     process_file lib p sp src st =
       st\<lparr>printed := printed st @ [empty_note p], opened := opened st @ [p]\<rparr>"
  by (cases "clean_html (html_parser lib) raw") (simp add: process_file_def)

lemma process_file_chunks:
  "read_text lib p = Inr raw \<Longrightarrow> clean_html (html_parser lib) raw = (txt, soup) \<Longrightarrow> txt \<noteq> [] \<Longrightarrow>
     process_file lib p sp src st =
       st\<lparr>written := written st @ map (entry (file_metadata soup p src)) (List.enumerate 0 (sp txt)),
          opened := opened st @ [p]\<rparr>"
  by (simp add: process_file_def Let_def)

lemma written_process_file:
  "written (process_file lib p sp src st) = written st @ file_records lib p sp src"
  unfolding file_records_def process_file_def
  by (simp add: Let_def split: sum.splits prod.splits)

lemma written_process_files:
  "written (process_files lib sp files st) =
     written st @ concat (map (\<lambda>p. file_records lib p sp None) files)"
  by (induction files arbitrary: st) (simp_all add: written_process_file)

lemma main_done:
  "gather_files (filesystem lib) input = (files, msgs) \<Longrightarrow> files \<noteq> [] \<Longrightarrow>
   text_splitter lib cs co = Inr sp \<Longrightarrow> open_output lib out = None \<Longrightarrow>
   ending (main lib input out cs co) = Done
   \<and> output_file (main lib input out cs co) =
       Some (concat (map (\<lambda>p. file_records lib p sp None) files))"
  by (simp add: main_def Let_def written_process_files)

lemma chunk_of_entry: "chunk_of (entry meta (i, c)) = Some (JInt (int i))"
  by (simp add: chunk_of_def entry_def update_conv')

lemma content_of_entry: "content_of (entry meta (i, c)) = Some (JStr c)"
  by (simp add: content_of_def entry_def)

lemma map_chunk_of_entries:
  "map (chunk_of \<circ> entry meta) (List.enumerate n cs) = map (\<lambda>i. Some (JInt (int i))) [n..<n + length cs]"
  by (induction cs arbitrary: n) (simp_all add: chunk_of_entry upt_rec)

lemma map_content_of_entries:
  "map (content_of \<circ> entry meta) (List.enumerate n cs) = map (\<lambda>c. Some (JStr c)) cs"
  by (induction cs arbitrary: n) (simp_all add: content_of_entry)

lemma file_records_cases:
  "file_records lib p sp src =
     (case read_text lib p of
        Inl e \<Rightarrow> []
      | Inr raw \<Rightarrow>
          (case clean_html (html_parser lib) raw of
             (txt, soup) \<Rightarrow>
               if txt = [] then []
               else map (entry (file_metadata soup p src)) (List.enumerate 0 (sp txt))))"
  by (simp add: file_records_def process_file_def Let_def split: sum.splits prod.splits)

lemma file_records_indices:
  "map chunk_of (file_records lib p sp src) =
     map (\<lambda>i. Some (JInt (int i))) [0..<length (file_records lib p sp src)]"
  using map_chunk_of_entries [where n = 0]
  by (simp add: file_records_cases split: sum.splits prod.splits)

text \<open>
  C4. The records a document adds to the output carry the chunk indices \<open>0\<close>, \<open>1\<close>, ...
  up to their number less one, in the order in which they are written, and the record with
  index \<open>i\<close> holds the \<open>i\<close>-th chunk the splitter returned for the text of the document.
\<close>

theorem chunk_indices_in_order:
  "map chunk_of (file_records lib p sp src) =
     map (\<lambda>i. Some (JInt (int i))) [0..<length (file_records lib p sp src)]
   \<and> written (process_file lib p sp src st) = written st @ file_records lib p sp src
   \<and> (read_text lib p = Inr raw \<and> clean_html (html_parser lib) raw = (txt, soup) \<and> txt \<noteq> [] \<longrightarrow>
        length (file_records lib p sp src) = length (sp txt)
        \<and> map content_of (file_records lib p sp src) = map (\<lambda>c. Some (JStr c)) (sp txt))"
proof -
  have "length (file_records lib p sp src) = length (sp txt)
        \<and> map content_of (file_records lib p sp src) = map (\<lambda>c. Some (JStr c)) (sp txt)"
    if "read_text lib p = Inr raw" and "clean_html (html_parser lib) raw = (txt, soup)" and "txt \<noteq> []"
    using that by (simp add: file_records_cases map_content_of_entries)
  then show ?thesis
    using file_records_indices [of lib p sp src] written_process_file [of lib p sp src st]
    by blast
qed


theorem chunk_indices_in_order_witness:
  "read_text example_lib ''site/Page.HTML'' = Inr ''<html>page</html>''
   \<and> clean_html (html_parser example_lib) ''<html>page</html>'' = (''Hello\<newline>First line\<newline>Second line'', clean_soup page_tree)
   \<and> splitlines ''Hello\<newline>First line\<newline>Second line'' = [''Hello'', ''First line'', ''Second line'']
   \<and> map chunk_of (file_records example_lib ''site/Page.HTML'' splitlines None) =
       [Some (JInt 0), Some (JInt 1), Some (JInt 2)]
   \<and> map content_of (file_records example_lib ''site/Page.HTML'' splitlines None) =
       [Some (JStr ''Hello''), Some (JStr ''First line''), Some (JStr ''Second line'')]"
proof -
  have a: "read_text example_lib ''site/Page.HTML'' = Inr ''<html>page</html>''"
    by code_simp
  have b: "clean_html (html_parser example_lib) ''<html>page</html>'' =
      (''Hello\<newline>First line\<newline>Second line'', clean_soup page_tree)"
    by code_simp
  have c: "splitlines ''Hello\<newline>First line\<newline>Second line'' = [''Hello'', ''First line'', ''Second line'']"
    by code_simp
  have d: "''Hello\<newline>First line\<newline>Second line'' \<noteq> []"
    by simp
  note t = chunk_indices_in_order [of example_lib "''site/Page.HTML''" splitlines None empty_run
      "''<html>page</html>''" "''Hello\<newline>First line\<newline>Second line''" "clean_soup page_tree"]
  from t a b d have len: "length (file_records example_lib ''site/Page.HTML'' splitlines None) = 3"
    and con: "map content_of (file_records example_lib ''site/Page.HTML'' splitlines None) =
       [Some (JStr ''Hello''), Some (JStr ''First line''), Some (JStr ''Second line'')]"
    by (simp_all add: c)
  from t have "map chunk_of (file_records example_lib ''site/Page.HTML'' splitlines None) =
       map (\<lambda>i. Some (JInt (int i))) [0..<length (file_records example_lib ''site/Page.HTML'' splitlines None)]"
    by blast
  then have "map chunk_of (file_records example_lib ''site/Page.HTML'' splitlines None) =
       [Some (JInt 0), Some (JInt 1), Some (JInt 2)]"
    by (simp add: len upt_rec)
  then show ?thesis using a b c con by blast
qed

text \<open>
  C3. When the text that \<open>clean_html\<close> returns for a document is empty, \<open>process_file\<close>
  writes no record for it (the splitter is not consulted: the result is the same for every
  splitter), prints the note, and returns. The loop of \<open>main\<close> goes on with the files that
  follow, the output is what it would be without the document, and \<open>main\<close> ends normally.
\<close>

theorem empty_document_emits_nothing:
  "read_text lib p = Inr raw \<Longrightarrow> fst (clean_html (html_parser lib) raw) = [] \<Longrightarrow>
     file_records lib p sp src = []
     \<and> process_file lib p sp src st =
         st\<lparr>printed := printed st @ [empty_note p], opened := opened st @ [p]\<rparr>
     \<and> process_files lib sp (p # rest) st =
         process_files lib sp rest (st\<lparr>printed := printed st @ [empty_note p], opened := opened st @ [p]\<rparr>)
     \<and> written (process_files lib sp (before @ p # rest) st) =
         written (process_files lib sp (before @ rest) st)
     \<and> (gather_files (filesystem lib) input = (before @ p # rest, msgs)
          \<and> text_splitter lib cs co = Inr sp \<and> open_output lib out = None \<longrightarrow>
        ending (main lib input out cs co) = Done)"
proof -
  assume r: "read_text lib p = Inr raw" and e: "fst (clean_html (html_parser lib) raw) = []"
  have pf: "process_file lib p sp src' st' =
         st'\<lparr>printed := printed st' @ [empty_note p], opened := opened st' @ [p]\<rparr>" for src' st'
    using r e by (rule process_file_empty)
  have none: "file_records lib p sp src' = []" for src'
    by (simp add: file_records_def pf)
  have "ending (main lib input out cs co) = Done"
    if "gather_files (filesystem lib) input = (before @ p # rest, msgs)"
      and "text_splitter lib cs co = Inr sp" and "open_output lib out = None"
    using main_done [OF that(1) _ that(2,3)] by simp
  then show ?thesis
    using pf none by (simp add: written_process_files)
qed


theorem empty_document_emits_nothing_witness:
  "read_text example_lib ''blank.html'' = Inr ''<html>blank</html>''
   \<and> fst (clean_html (html_parser example_lib) ''<html>blank</html>'') = []
   \<and> file_records example_lib ''blank.html'' splitlines None = []
   \<and> process_file example_lib ''blank.html'' splitlines None empty_run =
       \<lparr>written = [], printed = [''Note: no content extracted from blank.html''], opened = [''blank.html'']\<rparr>
   \<and> gather_files (filesystem example_lib) [''site'', ''blank.html''] = ([] @ ''blank.html'' # [''site/Page.HTML''], [])
   \<and> text_splitter example_lib 1000 200 = Inr splitlines
   \<and> open_output example_lib ''out.jsonl'' = None
   \<and> ending (main example_lib [''site'', ''blank.html''] ''out.jsonl'' 1000 200) = Done"
proof -
  have a: "read_text example_lib ''blank.html'' = Inr ''<html>blank</html>''"
    by code_simp
  have b: "fst (clean_html (html_parser example_lib) ''<html>blank</html>'') = []"
    by code_simp
  have g: "gather_files (filesystem example_lib) [''site'', ''blank.html''] = ([] @ ''blank.html'' # [''site/Page.HTML''], [])"
    by code_simp
  have s: "text_splitter example_lib 1000 200 = Inr splitlines"
    by (simp add: example_lib_def)
  have w: "open_output example_lib ''out.jsonl'' = None"
    by (simp add: example_lib_def)
  note t = empty_document_emits_nothing [OF a b, of splitlines None empty_run "[''site/Page.HTML'']" "[]"
      "[''site'', ''blank.html'']" "[]" 1000 200 "''out.jsonl''"]
  have "file_records example_lib ''blank.html'' splitlines None = []"
    using t by blast
  moreover have "process_file example_lib ''blank.html'' splitlines None empty_run =
       \<lparr>written = [], printed = [''Note: no content extracted from blank.html''], opened = [''blank.html'']\<rparr>"
    using t by (simp add: empty_run_def empty_note_def)
  moreover have "ending (main example_lib [''site'', ''blank.html''] ''out.jsonl'' 1000 200) = Done"
    using t g s w by blast
  ultimately show ?thesis using a b g s w by blast
qed

text \<open>
  C9, as the claim states it, fails for a file that cannot be decoded: the file is opened
  with \<open>errors='ignore'\<close>, so bytes that are not UTF-8 are left out and nothing is raised.
  The file \<open>legacy.html\<close> of the example is not UTF-8 text, and it is read, cleaned and
  chunked like any other: three records are written and no warning is printed.
\<close>

theorem undecodable_file_counterexample:
  "\<not> valid_utf8 (''<html>page</html>'' @ [CHR 0xFF])
   \<and> read_bytes example_lib ''legacy.html'' = Inr (''<html>page</html>'' @ [CHR 0xFF])
   \<and> printed (process_file example_lib ''legacy.html'' splitlines None empty_run) = []
   \<and> length (written (process_file example_lib ''legacy.html'' splitlines None empty_run)) = 3"
  by code_simp

text \<open>
  C9, amended. When a document cannot be opened or read, that is when the open or the read
  raises, \<open>process_file\<close> prints a warning that names the path and the reason, writes no
  record and returns. The loop of \<open>main\<close> goes on with the files that follow: the output is
  what it would be without the document, and \<open>main\<close> ends normally. A document whose bytes
  cannot be decoded raises nothing: whatever its bytes, a file that opens is decoded with
  errors ignored and processed as the text that results, without a warning.
\<close>

theorem unreadable_document_is_skipped:
  "read_bytes lib p = Inl e \<Longrightarrow>
     read_text lib p = Inl e
     \<and> file_records lib p sp src = []
     \<and> process_file lib p sp src st =
         st\<lparr>printed := printed st @ [read_warning p e], opened := opened st @ [p]\<rparr>
     \<and> read_warning p e = ''Warning: could not read file '' @ p @ '': '' @ e
     \<and> process_files lib sp (p # rest) st =
         process_files lib sp rest (st\<lparr>printed := printed st @ [read_warning p e], opened := opened st @ [p]\<rparr>)
     \<and> written (process_files lib sp (before @ p # rest) st) =
         written (process_files lib sp (before @ rest) st)
     \<and> (gather_files (filesystem lib) input = (before @ p # rest, msgs)
          \<and> text_splitter lib cs co = Inr sp \<and> open_output lib out = None \<longrightarrow>
        ending (main lib input out cs co) = Done
        \<and> output_file (main lib input out cs co) =
            Some (concat (map (\<lambda>f. file_records lib f sp None) (before @ rest))))
     \<and> (read_bytes lib q = Inr content \<longrightarrow>
          read_text lib q = Inr (decode_ignore lib content)
          \<and> (printed (process_file lib q sp src st) = printed st
               \<or> printed (process_file lib q sp src st) = printed st @ [empty_note q]))"
proof -
  assume "read_bytes lib p = Inl e"
  then have r: "read_text lib p = Inl e"
    by (simp add: read_text_def)
  have pf: "process_file lib p sp src' st' =
         st'\<lparr>printed := printed st' @ [read_warning p e], opened := opened st' @ [p]\<rparr>" for src' st'
    using r by (rule process_file_unreadable)
  have none: "file_records lib p sp src' = []" for src'
    by (simp add: file_records_def pf)
  have "ending (main lib input out cs co) = Done
        \<and> output_file (main lib input out cs co) =
            Some (concat (map (\<lambda>f. file_records lib f sp None) (before @ rest)))"
    if "gather_files (filesystem lib) input = (before @ p # rest, msgs)"
      and "text_splitter lib cs co = Inr sp" and "open_output lib out = None"
    using main_done [OF that(1) _ that(2,3)] none by simp
  moreover have "read_text lib q = Inr (decode_ignore lib content)
          \<and> (printed (process_file lib q sp src st) = printed st
               \<or> printed (process_file lib q sp src st) = printed st @ [empty_note q])"
    if "read_bytes lib q = Inr content"
  proof -
    from that have t: "read_text lib q = Inr (decode_ignore lib content)"
      by (simp add: read_text_def)
    obtain cleaned soup where
      "clean_html (html_parser lib) (decode_ignore lib content) = (cleaned, soup)"
      by (cases "clean_html (html_parser lib) (decode_ignore lib content)")
    with t show ?thesis
      by (simp add: process_file_def Let_def)
  qed
  ultimately show ?thesis
    using r pf none by (simp add: written_process_files read_warning_def)
qed

theorem unreadable_document_is_skipped_witness:
  "read_bytes example_lib ''readme.txt'' = Inl ''Permission denied''
   \<and> process_file example_lib ''readme.txt'' splitlines None empty_run =
       \<lparr>written = [], printed = [''Warning: could not read file readme.txt: Permission denied''],
        opened = [''readme.txt'']\<rparr>
   \<and> gather_files (filesystem example_lib) [''site'', ''readme.txt''] = ([] @ ''readme.txt'' # [''site/Page.HTML''], [])
   \<and> text_splitter example_lib 1000 200 = Inr splitlines
   \<and> open_output example_lib ''out.jsonl'' = None
   \<and> ending (main example_lib [''site'', ''readme.txt''] ''out.jsonl'' 1000 200) = Done
   \<and> output_file (main example_lib [''site'', ''readme.txt''] ''out.jsonl'' 1000 200) =
       Some (file_records example_lib ''site/Page.HTML'' splitlines None)
   \<and> length (file_records example_lib ''site/Page.HTML'' splitlines None) = 3
   \<and> read_bytes example_lib ''legacy.html'' = Inr (''<html>page</html>'' @ [CHR 0xFF])
   \<and> read_text example_lib ''legacy.html'' = Inr ''<html>page</html>''"
proof -
  have a: "read_bytes example_lib ''readme.txt'' = Inl ''Permission denied''"
    by (simp add: example_lib_def)
  have g: "gather_files (filesystem example_lib) [''site'', ''readme.txt''] = ([] @ ''readme.txt'' # [''site/Page.HTML''], [])"
    by code_simp
  have s: "text_splitter example_lib 1000 200 = Inr splitlines"
    by (simp add: example_lib_def)
  have w: "open_output example_lib ''out.jsonl'' = None"
    by (simp add: example_lib_def)
  have n: "length (file_records example_lib ''site/Page.HTML'' splitlines None) = 3"
    by code_simp
  have b: "read_bytes example_lib ''legacy.html'' = Inr (''<html>page</html>'' @ [CHR 0xFF])"
    by (simp add: example_lib_def)
  have d: "decode_ignore example_lib (''<html>page</html>'' @ [CHR 0xFF]) = ''<html>page</html>''"
    by code_simp
  note t = unreadable_document_is_skipped [OF a, of splitlines None empty_run "[''site/Page.HTML'']" "[]"
      "[''site'', ''readme.txt'']" "[]" 1000 200 "''out.jsonl''" "''legacy.html''"
      "''<html>page</html>'' @ [CHR 0xFF]"]
  have "process_file example_lib ''readme.txt'' splitlines None empty_run =
       \<lparr>written = [], printed = [''Warning: could not read file readme.txt: Permission denied''],
        opened = [''readme.txt'']\<rparr>"
    using t by (simp add: empty_run_def)
  moreover have "ending (main example_lib [''site'', ''readme.txt''] ''out.jsonl'' 1000 200) = Done
   \<and> output_file (main example_lib [''site'', ''readme.txt''] ''out.jsonl'' 1000 200) =
       Some (file_records example_lib ''site/Page.HTML'' splitlines None)"
    using t g s w by simp
  moreover have "read_text example_lib ''legacy.html'' = Inr ''<html>page</html>''"
    using t b d by simp
  ultimately show ?thesis using a g s w n b by blast
qed

section \<open>Properties of the metadata and of the records\<close>

lemma keys_update: "fst ` set (AList.update k v al) = insert k (fst ` set al)"
  by (induction al) auto

lemma keys_meta_title:
  "fst ` set ((meta_title soup m)) =
     fst ` set m \<union>
       (if \<exists>t s. find_first (is_tag ''title'') soup = Some t \<and> dot_string t = Some s \<and> s \<noteq> []
        then {''title''} else {})"
  by (auto simp: meta_title_def keys_update split: option.splits)

lemma keys_meta_author:
  "fst ` set ((meta_author soup m)) =
     fst ` set m \<union>
       (if \<exists>a c. find_first (\<lambda>n. is_tag ''meta'' n \<and> attr n ''name'' = Some ''author'') soup = Some a
                 \<and> attr a ''content'' = Some c \<and> c \<noteq> []
        then {''author''} else {})"
  by (auto simp: meta_author_def keys_update split: option.splits)

lemma keys_meta_author_span:
  "fst ` set ((meta_author_span soup m)) =
     fst ` set m \<union>
       (if ''author'' \<notin> fst ` set m \<and> (\<exists>n. find_first (has_class ''author'') soup = Some n)
        then {''author''} else {})"
  by (auto simp: meta_author_span_def keys_update split: option.splits)

lemma keys_meta_time:
  "fst ` set ((meta_time soup m)) =
     fst ` set m \<union> (if time_value soup \<noteq> None then {''date''} else {})"
  by (auto simp: meta_time_def time_value_def keys_update split: option.splits)

lemma keys_meta_published:
  "fst ` set ((meta_published soup m)) =
     fst ` set m \<union> (if published_time soup \<noteq> None then {''date''} else {})"
  by (auto simp: meta_published_def published_time_def keys_update split: option.splits if_splits)

lemma str_valued_update: "str_valued m \<Longrightarrow> str_valued (AList.update k (JStr s) m)"
  unfolding str_valued_def
  by (induction m) (auto simp: distinct_update keys_update)

lemma str_valued_steps:
  "str_valued m \<Longrightarrow> str_valued (meta_title soup m)"
  "str_valued m \<Longrightarrow> str_valued (meta_author soup m)"
  "str_valued m \<Longrightarrow> str_valued (meta_author_span soup m)"
  "str_valued m \<Longrightarrow> str_valued (meta_time soup m)"
  "str_valued m \<Longrightarrow> str_valued (meta_published soup m)"
  by (auto simp: meta_title_def meta_author_def meta_author_span_def meta_time_def meta_published_def
      str_valued_update split: option.splits)

lemma str_valued_Nil: "str_valued []"
  by (simp add: str_valued_def)

lemma str_valued_extract: "str_valued (extract_metadata soup)"
  by (simp add: extract_metadata_def str_valued_steps str_valued_Nil)

lemma keys_extract_metadata:
  "fst ` set ((extract_metadata soup)) =
     (if \<exists>t s. find_first (is_tag ''title'') soup = Some t \<and> dot_string t = Some s \<and> s \<noteq> []
      then {''title''} else {})
     \<union> (if (\<exists>a c. find_first (\<lambda>n. is_tag ''meta'' n \<and> attr n ''name'' = Some ''author'') soup = Some a
                 \<and> attr a ''content'' = Some c \<and> c \<noteq> [])
           \<or> (\<exists>n. find_first (has_class ''author'') soup = Some n)
        then {''author''} else {})
     \<union> (if time_value soup \<noteq> None \<or> published_time soup \<noteq> None then {''date''} else {})"
  unfolding extract_metadata_def keys_meta_published keys_meta_time keys_meta_author_span
    keys_meta_author keys_meta_title
  by auto

lemma str_valued_file_metadata: "str_valued (file_metadata soup p src)"
  by (auto simp: file_metadata_def Let_def str_valued_update str_valued_extract split: option.splits)

lemma keys_file_metadata:
  "fst ` set ((file_metadata soup p src)) =
     fst ` set ((extract_metadata soup)) \<union> {''filename''}
     \<union> (if \<exists>u. src = Some u \<and> u \<noteq> [] then {''source''} else {})"
  by (auto simp: file_metadata_def Let_def keys_update split: option.splits)

lemma filename_file_metadata:
  "map_of (file_metadata soup p src) ''filename'' = Some (JStr (basename p))"
  by (auto simp: file_metadata_def Let_def update_conv' split: option.splits)


lemma str_valued_chunk:
  assumes "str_valued m"
  shows "distinct (map fst (AList.update ''chunk'' (JInt i) m))"
    and "map_of (AList.update ''chunk'' (JInt i) m) ''chunk'' = Some (JInt i)"
    and "map_of (AList.update ''chunk'' (JInt i) m) k = Some v \<Longrightarrow> k \<noteq> ''chunk'' \<Longrightarrow> \<exists>s. v = JStr s"
proof -
  show "distinct (map fst (AList.update ''chunk'' (JInt i) m))"
    using assms by (simp add: str_valued_def distinct_update)
  show "map_of (AList.update ''chunk'' (JInt i) m) ''chunk'' = Some (JInt i)"
    by (simp add: update_conv')
  assume "map_of (AList.update ''chunk'' (JInt i) m) k = Some v" and "k \<noteq> ''chunk''"
  then have "map_of m k = Some v" by (simp add: update_conv')
  then have "(k, v) \<in> set m" by (rule map_of_SomeD)
  with assms have "case v of JStr s \<Rightarrow> True | _ \<Rightarrow> False"
    by (auto simp: str_valued_def list_all_iff)
  then show "\<exists>s. v = JStr s"
    by (cases v) simp_all
qed

text \<open>
  C5. Every record a document adds to the output is an object with the two members
  \<open>content\<close>, a string, and \<open>metadata\<close>, an object, in this order and no other. The
  keys of \<open>metadata\<close> are distinct and among \<open>title\<close>, \<open>author\<close>, \<open>date\<close>,
  \<open>filename\<close>, \<open>source\<close> and \<open>chunk\<close>; \<open>filename\<close> is there and is the base name of
  the path, \<open>chunk\<close> is there and is an integer, and every other value is a string. Each of
  the other keys is there exactly when its source was found in the cleaned tree of the
  document: \<open>title\<close> when the first \<open>title\<close> tag has a string that is not empty,
  \<open>author\<close> when the first author meta tag has a content that is not empty or some tag
  has the class \<open>author\<close>, \<open>date\<close> when there is a \<open>time\<close> tag or a published-time
  meta tag with a content that is not empty, \<open>source\<close> when a source URL that is not empty
  was passed.
\<close>

theorem record_shape:
  "r \<in> set (file_records lib p sp src) \<Longrightarrow>
   \<exists>c m raw.
      r = JObj [(''content'', JStr c), (''metadata'', JObj m)]
      \<and> distinct (map fst m)
      \<and> set (map fst m) \<subseteq> {''title'', ''author'', ''date'', ''filename'', ''source'', ''chunk''}
      \<and> map_of m ''filename'' = Some (JStr (basename p))
      \<and> (\<exists>i. map_of m ''chunk'' = Some (JInt i))
      \<and> (\<forall>k v. map_of m k = Some v \<and> k \<noteq> ''chunk'' \<longrightarrow> (\<exists>s. v = JStr s))
      \<and> read_text lib p = Inr raw
      \<and> (''title'' \<in> set (map fst m) \<longleftrightarrow>
           (\<exists>t s. find_first (is_tag ''title'') (snd (clean_html (html_parser lib) raw)) = Some t
                  \<and> dot_string t = Some s \<and> s \<noteq> []))
      \<and> (''author'' \<in> set (map fst m) \<longleftrightarrow>
           (\<exists>a c. find_first (\<lambda>n. is_tag ''meta'' n \<and> attr n ''name'' = Some ''author'')
                     (snd (clean_html (html_parser lib) raw)) = Some a
                  \<and> attr a ''content'' = Some c \<and> c \<noteq> [])
           \<or> (\<exists>n. find_first (has_class ''author'') (snd (clean_html (html_parser lib) raw)) = Some n))
      \<and> (''date'' \<in> set (map fst m) \<longleftrightarrow>
           time_value (snd (clean_html (html_parser lib) raw)) \<noteq> None
           \<or> published_time (snd (clean_html (html_parser lib) raw)) \<noteq> None)
      \<and> (''source'' \<in> set (map fst m) \<longleftrightarrow> (\<exists>u. src = Some u \<and> u \<noteq> []))"
proof -
  assume r: "r \<in> set (file_records lib p sp src)"
  then obtain raw where raw: "read_text lib p = Inr raw"
    by (cases "read_text lib p") (auto simp: file_records_cases)
  obtain cleaned soup where cl: "clean_html (html_parser lib) raw = (cleaned, soup)"
    by (cases "clean_html (html_parser lib) raw")
  define meta where "meta = file_metadata soup p src"
  from r raw cl obtain i c where rec: "r = entry meta (i, c)"
    by (auto simp: file_records_cases meta_def split: if_splits)
  define m where "m = AList.update ''chunk'' (JInt (int i)) meta"
  have sv: "str_valued meta"
    by (simp add: meta_def str_valued_file_metadata)
  have keys: "fst ` set m = insert ''chunk'' (fst ` set meta)"
    by (simp add: m_def keys_update)
  have km: "fst ` set meta = fst ` set (extract_metadata soup) \<union> {''filename''}
     \<union> (if \<exists>u. src = Some u \<and> u \<noteq> [] then {''source''} else {})"
    unfolding meta_def by (rule keys_file_metadata)
  have "r = JObj [(''content'', JStr c), (''metadata'', JObj m)]"
    by (simp add: rec entry_def m_def)
  moreover have "distinct (map fst m)"
    unfolding m_def using sv by (rule str_valued_chunk(1))
  moreover have "set (map fst m) \<subseteq> {''title'', ''author'', ''date'', ''filename'', ''source'', ''chunk''}"
    using keys km by (auto simp: keys_extract_metadata split: if_splits)
  moreover have "map_of m ''filename'' = Some (JStr (basename p))"
    by (simp add: m_def update_conv' meta_def filename_file_metadata)
  moreover have "\<exists>i. map_of m ''chunk'' = Some (JInt i)"
    by (simp add: m_def update_conv')
  moreover have "\<forall>k v. map_of m k = Some v \<and> k \<noteq> ''chunk'' \<longrightarrow> (\<exists>s. v = JStr s)"
    unfolding m_def using str_valued_chunk(3) [OF sv] by blast
  moreover have "''title'' \<in> set (map fst m) \<longleftrightarrow>
           (\<exists>t s. find_first (is_tag ''title'') soup = Some t \<and> dot_string t = Some s \<and> s \<noteq> [])"
    using keys km by (auto simp: keys_extract_metadata split: if_splits)
  moreover have "''author'' \<in> set (map fst m) \<longleftrightarrow>
           (\<exists>a c. find_first (\<lambda>n. is_tag ''meta'' n \<and> attr n ''name'' = Some ''author'') soup = Some a
                  \<and> attr a ''content'' = Some c \<and> c \<noteq> [])
           \<or> (\<exists>n. find_first (has_class ''author'') soup = Some n)"
    using keys km by (auto simp: keys_extract_metadata split: if_splits)
  moreover have "''date'' \<in> set (map fst m) \<longleftrightarrow>
           time_value soup \<noteq> None \<or> published_time soup \<noteq> None"
    using keys km by (auto simp: keys_extract_metadata split: if_splits)
  moreover have "''source'' \<in> set (map fst m) \<longleftrightarrow> (\<exists>u. src = Some u \<and> u \<noteq> [])"
    using keys km by (auto simp: keys_extract_metadata split: if_splits)
  ultimately show ?thesis
    using raw cl by (intro exI [of _ c] exI [of _ m] exI [of _ raw]) simp
qed

theorem record_shape_witness:
  "page_record \<in> set (file_records example_lib ''site/Page.HTML'' splitlines None)
   \<and> (\<exists>c m. page_record = JObj [(''content'', JStr c), (''metadata'', JObj m)]
        \<and> distinct (map fst m)
        \<and> set (map fst m) \<subseteq> {''title'', ''author'', ''date'', ''filename'', ''source'', ''chunk''}
        \<and> map_of m ''filename'' = Some (JStr (basename ''site/Page.HTML''))
        \<and> ''source'' \<notin> set (map fst m))
   \<and> basename ''site/Page.HTML'' = ''Page.HTML''"
proof -
  have a: "page_record \<in> set (file_records example_lib ''site/Page.HTML'' splitlines None)"
    by code_simp
  have b: "basename ''site/Page.HTML'' = ''Page.HTML''"
    by code_simp
  from record_shape [OF a] obtain c m where
    "page_record = JObj [(''content'', JStr c), (''metadata'', JObj m)]"
    "distinct (map fst m)"
    "set (map fst m) \<subseteq> {''title'', ''author'', ''date'', ''filename'', ''source'', ''chunk''}"
    "map_of m ''filename'' = Some (JStr (basename ''site/Page.HTML''))"
    "''source'' \<in> set (map fst m) \<longleftrightarrow> (\<exists>u. (None :: string option) = Some u \<and> u \<noteq> [])"
    by blast
  then show ?thesis using a b by blast
qed

section \<open>Properties of the date\<close>







section \<open>Properties of \<open>clean_html\<close>\<close>

lemma is_tag_simps:
  "is_tag tag (Elem t as cs) \<longleftrightarrow> t = tag"
  "\<not> is_tag tag (Text v)"
  "\<not> is_tag tag (Comment v)"
  by (simp_all add: is_tag_def)

lemma find_first_None_iff:
  "find_first (is_tag tag) s = None \<longleftrightarrow> (\<forall>tok \<in> set (flat s). \<not> is_open tag tok)"
  by (induction "is_tag tag" s rule: find_first.induct)
     (auto simp: is_tag_simps split: option.splits)

lemma decompose_first_None_iff:
  "decompose_first tag s = None \<longleftrightarrow> (\<forall>tok \<in> set (flat s). \<not> is_open tag tok)"
  by (induction tag s rule: decompose_first.induct) (auto split: option.splits)

lemma decompose_first_Some:
  "decompose_first tag s = Some s' \<Longrightarrow>
     \<exists>pre as cs post.
        find_first (is_tag tag) s = Some (Elem tag as cs)
        \<and> flat s = pre @ flat [Elem tag as cs] @ post
        \<and> (\<forall>tok \<in> set pre. \<not> is_open tag tok)
        \<and> flat s' = pre @ post"
proof (induction tag s arbitrary: s' rule: decompose_first.induct)
  case (1 tag)
  then show ?case by simp
next
  case (2 tag t as cs ns)
  show ?case
  proof (cases "t = tag")
    case True
    with 2(3) have "s' = ns" by simp
    with True have "find_first (is_tag tag) (Elem t as cs # ns) = Some (Elem tag as cs)
        \<and> flat (Elem t as cs # ns) = [] @ flat [Elem tag as cs] @ flat ns
        \<and> (\<forall>tok \<in> set []. \<not> is_open tag tok)
        \<and> flat s' = [] @ flat ns"
      by (simp add: is_tag_simps)
    then show ?thesis by blast
  next
    case False
    show ?thesis
    proof (cases "decompose_first tag cs")
      case (Some cs')
      with False 2(3) have s': "s' = Elem t as cs' # ns" by simp
      from 2(1) [OF False Some] obtain pre as' cs'' post where
        f: "find_first (is_tag tag) cs = Some (Elem tag as' cs'')"
        and fl: "flat cs = pre @ flat [Elem tag as' cs''] @ post"
        and np: "\<forall>tok \<in> set pre. \<not> is_open tag tok"
        and r: "flat cs' = pre @ post"
        by blast
      have "find_first (is_tag tag) (Elem t as cs # ns) = Some (Elem tag as' cs'')
        \<and> flat (Elem t as cs # ns) = (Open t as # pre) @ flat [Elem tag as' cs''] @ (post @ Close t # flat ns)
        \<and> (\<forall>tok \<in> set (Open t as # pre). \<not> is_open tag tok)
        \<and> flat s' = (Open t as # pre) @ (post @ Close t # flat ns)"
        using False f fl np r s' by (simp add: is_tag_simps)
      then show ?thesis by blast
    next
      case None
      with False 2(3) obtain ns' where d: "decompose_first tag ns = Some ns'"
        and s': "s' = Elem t as cs # ns'"
        by auto
      from None have nc: "\<forall>tok \<in> set (flat cs). \<not> is_open tag tok"
        by (simp add: decompose_first_None_iff)
      then have fc: "find_first (is_tag tag) cs = None"
        by (simp add: find_first_None_iff)
      from 2(2) [OF False None d] obtain pre as' cs'' post where
        f: "find_first (is_tag tag) ns = Some (Elem tag as' cs'')"
        and fl: "flat ns = pre @ flat [Elem tag as' cs''] @ post"
        and np: "\<forall>tok \<in> set pre. \<not> is_open tag tok"
        and r: "flat ns' = pre @ post"
        by blast
      have "find_first (is_tag tag) (Elem t as cs # ns) = Some (Elem tag as' cs'')
        \<and> flat (Elem t as cs # ns) = (Open t as # flat cs @ Close t # pre) @ flat [Elem tag as' cs''] @ post
        \<and> (\<forall>tok \<in> set (Open t as # flat cs @ Close t # pre). \<not> is_open tag tok)
        \<and> flat s' = (Open t as # flat cs @ Close t # pre) @ post"
        using False f fl np r s' nc fc by (auto simp: is_tag_simps)
      then show ?thesis by blast
    qed
  qed
next
  case (3 tag v ns)
  then obtain ns' where d: "decompose_first tag ns = Some ns'" and s': "s' = Text v # ns'"
    by auto
  from 3(1) [OF d] obtain pre as' cs'' post where
    f: "find_first (is_tag tag) ns = Some (Elem tag as' cs'')"
    and fl: "flat ns = pre @ flat [Elem tag as' cs''] @ post"
    and np: "\<forall>tok \<in> set pre. \<not> is_open tag tok"
    and r: "flat ns' = pre @ post"
    by blast
  have "find_first (is_tag tag) (Text v # ns) = Some (Elem tag as' cs'')
        \<and> flat (Text v # ns) = (Str v # pre) @ flat [Elem tag as' cs''] @ post
        \<and> (\<forall>tok \<in> set (Str v # pre). \<not> is_open tag tok)
        \<and> flat s' = (Str v # pre) @ post"
    using f fl np r s' by (simp add: is_tag_simps)
  then show ?case by blast
next
  case (4 tag v ns)
  then obtain ns' where d: "decompose_first tag ns = Some ns'" and s': "s' = Comment v # ns'"
    by auto
  from 4(1) [OF d] obtain pre as' cs'' post where
    f: "find_first (is_tag tag) ns = Some (Elem tag as' cs'')"
    and fl: "flat ns = pre @ flat [Elem tag as' cs''] @ post"
    and np: "\<forall>tok \<in> set pre. \<not> is_open tag tok"
    and r: "flat ns' = pre @ post"
    by blast
  have "find_first (is_tag tag) (Comment v # ns) = Some (Elem tag as' cs'')
        \<and> flat (Comment v # ns) = (Cmt v # pre) @ flat [Elem tag as' cs''] @ post
        \<and> (\<forall>tok \<in> set (Cmt v # pre). \<not> is_open tag tok)
        \<and> flat s' = (Cmt v # pre) @ post"
    using f fl np r s' by (simp add: is_tag_simps)
  then show ?case by blast
qed

lemma flat_decompose_all_subset: "set (flat (decompose_all tags s)) \<subseteq> set (flat s)"
  by (induction tags s rule: decompose_all.induct) auto

lemma flat_decompose_all_none:
  "tok \<in> set (flat (decompose_all tags s)) \<Longrightarrow> t \<in> set tags \<Longrightarrow> \<not> is_open t tok"
  by (induction tags s rule: decompose_all.induct) (auto split: if_splits)

lemma find_all_decompose_all: "find_all tags (decompose_all tags s) = []"
  by (induction tags s rule: decompose_all.induct) auto

lemma flat_remove_found_subset: "set (flat (remove_found s tag)) \<subseteq> set (flat s)"
proof (cases "decompose_first tag s")
  case None
  then show ?thesis by (simp add: remove_found_def)
next
  case (Some s')
  from decompose_first_Some [OF Some] show ?thesis
    using Some by (auto simp: remove_found_def)
qed

lemma clean_soup_chain:
  "clean_soup soup =
     remove_found (remove_found (remove_found (remove_found (remove_found
       (decompose_all [''script'', ''style'', ''noscript''] soup)
       ''header'') ''footer'') ''nav'') ''aside'') ''form''"
  by (simp add: clean_soup_def)

lemma flat_foldl_remove_found_subset:
  "set (flat (foldl remove_found s tags)) \<subseteq> set (flat s)"
proof (induction tags arbitrary: s)
  case Nil
  then show ?case by simp
next
  case (Cons tag tags)
  have "set (flat (foldl remove_found (remove_found s tag) tags)) \<subseteq> set (flat (remove_found s tag))"
    by (rule Cons.IH)
  also have "\<dots> \<subseteq> set (flat s)"
    by (rule flat_remove_found_subset)
  finally show ?case by simp
qed

lemma flat_clean_soup_subset:
  "set (flat (clean_soup soup)) \<subseteq> set (flat (decompose_all [''script'', ''style'', ''noscript''] soup))"
  unfolding clean_soup_def by (rule flat_foldl_remove_found_subset)

lemma token_strings_append: "token_strings (a @ b) = token_strings a @ token_strings b"
  by (induction a rule: token_strings.induct) simp_all

lemma strings_of_flat: "strings_of s = token_strings (flat s)"
  by (induction s rule: strings_of.induct) (simp_all add: token_strings_append)

lemma drop_inside_skip:
  "0 < d \<Longrightarrow> drop_inside tags d (flat cs @ r) = drop_inside tags d r"
  by (induction cs arbitrary: d r rule: flat.induct) simp_all

lemma drop_inside_flat:
  "drop_inside tags 0 (flat s @ r) = flat (decompose_all tags s) @ drop_inside tags 0 r"
  by (induction tags s arbitrary: r rule: decompose_all.induct) (simp_all add: drop_inside_skip)

lemma flat_decompose_all: "flat (decompose_all tags s) = drop_inside tags 0 (flat s)"
  using drop_inside_flat [of tags s "[]"] by simp

lemma subseq_token_strings: "subseq a b \<Longrightarrow> subseq (token_strings a) (token_strings b)"
proof (induction rule: list_emb.induct)
  case (list_emb_Nil ys)
  then show ?case by simp
next
  case (list_emb_Cons xs ys y)
  then show ?case by (cases y) (simp_all add: list_emb.list_emb_Cons)
next
  case (list_emb_Cons2 x y xs ys)
  then show ?case by (cases y) simp_all
qed

lemma subseq_remove_found: "subseq (flat (remove_found s tag)) (flat s)"
proof (cases "decompose_first tag s")
  case None
  then show ?thesis by (simp add: remove_found_def)
next
  case (Some s')
  from decompose_first_Some [OF Some] obtain pre as cs post where
    whole: "flat s = pre @ flat [Elem tag as cs] @ post" and rest: "flat s' = pre @ post"
    by blast
  have "subseq post (flat [Elem tag as cs] @ post)"
    by (rule list_emb_append2) simp
  then have "subseq (pre @ post) (pre @ flat [Elem tag as cs] @ post)"
    by (simp only: subseq_append')
  with whole rest Some show ?thesis
    by (simp add: remove_found_def)
qed

lemma subseq_foldl_remove_found: "subseq (flat (foldl remove_found s tags)) (flat s)"
proof (induction tags arbitrary: s)
  case Nil
  then show ?case by simp
next
  case (Cons tag tags)
  have "subseq (flat (foldl remove_found (remove_found s tag) tags)) (flat (remove_found s tag))"
    by (rule Cons.IH)
  then show ?case
    using subseq_remove_found [of s tag] by (simp add: subseq_order.order_trans)
qed

lemma subseq_clean_soup:
  "subseq (flat (clean_soup soup)) (drop_inside [''script'', ''style'', ''noscript''] 0 (flat soup))"
  unfolding clean_soup_def flat_decompose_all [symmetric]
  by (rule subseq_foldl_remove_found)

lemma text_clean_html:
  "fst (clean_html parser html_content) =
     join newline (map strip (filter (\<lambda>line. strip line \<noteq> [])
       (splitlines (join newline (token_strings (flat (clean_soup (parser html_content))))))))"
  by (simp add: clean_html_def Let_def get_text_def strings_of_flat)

text \<open>
  C7, as the claim states it, fails: on the page of the example the header holds a navigation
  block and a second one follows it, and both are gone after \<open>clean_html\<close>, since the first
  leaves with the header and the second is then the first \<open>nav\<close> tag of the tree.
\<close>

theorem clean_html_two_navs_counterexample:
  "count_tag ''nav'' (html_parser example_lib ''<html>page</html>'') = 2
   \<and> count_tag ''nav'' (snd (clean_html (html_parser example_lib) ''<html>page</html>'')) = 0"
  by code_simp

text \<open>
  C7, amended. The first loop of \<open>clean_html\<close> takes every \<open>script\<close>, \<open>style\<close> and
  \<open>noscript\<close> tag out of the document together with all that stands between its start and
  its end, and keeps everything else as it is. What is left after the second loop is a part
  of that, so the tree returned has no such tag, and the text returned is made of strings
  outside these tags only. The second loop attempts one removal for each of \<open>header\<close>,
  \<open>footer\<close>, \<open>nav\<close>, \<open>aside\<close> and \<open>form\<close>, in this order. A removal for a tag name that
  does not occur leaves the tree as it is. A removal for a tag name that occurs takes out
  the tag \<open>find\<close> returns, which is the first tag of that name in document order, together
  with its subtree, and keeps everything before and after that subtree as it is: tags of
  the same name outside the subtree stay, those inside it leave with it.
\<close>

theorem clean_soup_removals:
  "flat (decompose_all [''script'', ''style'', ''noscript''] soup) =
     drop_inside [''script'', ''style'', ''noscript''] 0 (flat soup)
   \<and> subseq (flat (clean_soup soup)) (drop_inside [''script'', ''style'', ''noscript''] 0 (flat soup))
   \<and> fst (clean_html parser html_content) =
       join newline (map strip (filter (\<lambda>line. strip line \<noteq> [])
         (splitlines (join newline (token_strings (flat (clean_soup (parser html_content))))))))
   \<and> (\<forall>tok \<in> set (flat (clean_soup soup)).
        \<not> is_open ''script'' tok \<and> \<not> is_open ''style'' tok \<and> \<not> is_open ''noscript'' tok)
   \<and> snd (clean_html parser html_content) = clean_soup (parser html_content)
   \<and> clean_soup soup =
       remove_found (remove_found (remove_found (remove_found (remove_found
         (decompose_all [''script'', ''style'', ''noscript''] soup)
         ''header'') ''footer'') ''nav'') ''aside'') ''form''
   \<and> ((\<forall>tok \<in> set (flat s). \<not> is_open tag tok) \<longrightarrow>
        find_first (is_tag tag) s = None \<and> remove_found s tag = s)
   \<and> (\<not> (\<forall>tok \<in> set (flat s). \<not> is_open tag tok) \<longrightarrow>
        (\<exists>pre as cs post.
           find_first (is_tag tag) s = Some (Elem tag as cs)
           \<and> flat s = pre @ flat [Elem tag as cs] @ post
           \<and> (\<forall>tok \<in> set pre. \<not> is_open tag tok)
           \<and> flat (remove_found s tag) = pre @ post))"
proof -
  have scripts: "\<forall>tok \<in> set (flat (clean_soup soup)).
      \<not> is_open ''script'' tok \<and> \<not> is_open ''style'' tok \<and> \<not> is_open ''noscript'' tok"
  proof
    fix tok
    assume "tok \<in> set (flat (clean_soup soup))"
    then have "tok \<in> set (flat (decompose_all [''script'', ''style'', ''noscript''] soup))"
      using flat_clean_soup_subset by blast
    then show "\<not> is_open ''script'' tok \<and> \<not> is_open ''style'' tok \<and> \<not> is_open ''noscript'' tok"
      using flat_decompose_all_none [of tok "[''script'', ''style'', ''noscript'']" soup]
      by simp
  qed
  have absent: "find_first (is_tag tag) s = None \<and> remove_found s tag = s"
    if "\<forall>tok \<in> set (flat s). \<not> is_open tag tok"
    using that by (simp add: find_first_None_iff remove_found_def decompose_first_None_iff [symmetric])
  have present: "\<exists>pre as cs post.
           find_first (is_tag tag) s = Some (Elem tag as cs)
           \<and> flat s = pre @ flat [Elem tag as cs] @ post
           \<and> (\<forall>tok \<in> set pre. \<not> is_open tag tok)
           \<and> flat (remove_found s tag) = pre @ post"
    if "\<not> (\<forall>tok \<in> set (flat s). \<not> is_open tag tok)"
  proof -
    from that obtain s' where d: "decompose_first tag s = Some s'"
      using decompose_first_None_iff [of tag s] by (cases "decompose_first tag s") auto
    then have "remove_found s tag = s'"
      by (simp add: remove_found_def)
    with decompose_first_Some [OF d] show ?thesis by simp
  qed
  have tree: "snd (clean_html parser html_content) = clean_soup (parser html_content)"
    by (simp add: clean_html_def Let_def)
  note first = flat_decompose_all [of "[''script'', ''style'', ''noscript'']" soup]
  note left = subseq_clean_soup [of soup]
  note words = text_clean_html [of parser html_content]
  from first left words scripts tree absent present clean_soup_chain [of soup] show ?thesis
    by blast
qed

theorem clean_soup_removals_witness:
  "count_tag ''nav'' nav_list = 2
   \<and> (\<exists>pre as cs post.
         find_first (is_tag ''nav'') nav_list = Some (Elem ''nav'' as cs)
         \<and> flat nav_list = pre @ flat [Elem ''nav'' as cs] @ post
         \<and> (\<forall>tok \<in> set pre. \<not> is_open ''nav'' tok)
         \<and> flat (remove_found nav_list ''nav'') = pre @ post)
   \<and> remove_found nav_list ''nav'' = [Elem ''p'' [] [Text ''Body''], Elem ''nav'' [] [Text ''More'']]
   \<and> count_tag ''nav'' (remove_found nav_list ''nav'') = 1
   \<and> count_tag ''form'' nav_list = 0
   \<and> remove_found nav_list ''form'' = nav_list
   \<and> strings_of page_tree = [''Hello'', ''var x = 1;'', ''Home'', ''First line'', ''Second line'', ''More'']
   \<and> token_strings (drop_inside [''script'', ''style'', ''noscript''] 0 (flat page_tree)) =
       [''Hello'', ''Home'', ''First line'', ''Second line'', ''More'']
   \<and> token_strings (flat (decompose_all [''script'', ''style'', ''noscript''] page_tree)) =
       [''Hello'', ''Home'', ''First line'', ''Second line'', ''More'']
   \<and> fst (clean_html (html_parser example_lib) ''<html>page</html>'') =
       ''Hello\<newline>First line\<newline>Second line''"
proof -
  have a: "\<not> (\<forall>tok \<in> set (flat nav_list). \<not> is_open ''nav'' tok)"
    by code_simp
  have b: "\<forall>tok \<in> set (flat nav_list). \<not> is_open ''form'' tok"
    by code_simp
  have c: "remove_found nav_list ''nav'' = [Elem ''p'' [] [Text ''Body''], Elem ''nav'' [] [Text ''More'']]"
    by code_simp
  have d: "count_tag ''nav'' nav_list = 2" "count_tag ''form'' nav_list = 0"
    "count_tag ''nav'' (remove_found nav_list ''nav'') = 1"
    by code_simp+
  have e: "strings_of page_tree = [''Hello'', ''var x = 1;'', ''Home'', ''First line'', ''Second line'', ''More'']"
    by code_simp
  have f: "token_strings (drop_inside [''script'', ''style'', ''noscript''] 0 (flat page_tree)) =
       [''Hello'', ''Home'', ''First line'', ''Second line'', ''More'']"
    by code_simp
  have g: "fst (clean_html (html_parser example_lib) ''<html>page</html>'') =
       ''Hello\<newline>First line\<newline>Second line''"
    by code_simp
  have "\<exists>pre as cs post.
         find_first (is_tag ''nav'') nav_list = Some (Elem ''nav'' as cs)
         \<and> flat nav_list = pre @ flat [Elem ''nav'' as cs] @ post
         \<and> (\<forall>tok \<in> set pre. \<not> is_open ''nav'' tok)
         \<and> flat (remove_found nav_list ''nav'') = pre @ post"
    using clean_soup_removals [where s = nav_list and tag = "''nav''"] a by blast
  moreover have "remove_found nav_list ''form'' = nav_list"
    using clean_soup_removals [where s = nav_list and tag = "''form''"] b by blast
  moreover have "token_strings (flat (decompose_all [''script'', ''style'', ''noscript''] page_tree)) =
       [''Hello'', ''Home'', ''First line'', ''Second line'', ''More'']"
    using clean_soup_removals [where soup = page_tree] f by simp
  ultimately show ?thesis using c d e f g by blast
qed

section \<open>Properties of \<open>main\<close>\<close>

text \<open>
  C2, as the claim states it, fails: with an overlap above the size and an input path that
  does not exist, \<open>main\<close> reports that no input files were found and returns; the
  configuration is not looked at, whether the constructor is the one of the example or the
  one of the specification.
\<close>

theorem main_no_input_counterexample:
  "(100::int) \<le> 200
   \<and> main example_lib [''ghost''] ''out.jsonl'' 100 200 =
       \<lparr>ending = No_input_files,
        stdout = [''Skipping non-existent path: ghost'', ''No input files found.''],
        output_file = None, files_opened = []\<rparr>
   \<and> main (example_lib\<lparr>text_splitter := RecursiveCharacterTextSplitter example_separators\<rparr>)
         [''ghost''] ''out.jsonl'' 100 200 =
       \<lparr>ending = No_input_files,
        stdout = [''Skipping non-existent path: ghost'', ''No input files found.''],
        output_file = None, files_opened = []\<rparr>"
  by code_simp

text \<open>
  C2, amended, with the constructor of the specification. For every configuration with an
  overlap that is not below the chunk size, when at least one input file is found, the
  constructor of the splitter rejects the configuration before \<open>main\<close> opens the output:
  the run ends with the configuration error, no document has been opened, chunked or
  written and the output file has not been opened. When no input file is found, \<open>main\<close>
  prints that no input files were found and returns, whatever the configuration. \<open>main\<close>
  has no check of its own: for every constructor, the run ends with what the constructor
  raises, and goes on to process every file when it returns a splitter.
\<close>

theorem main_configuration_check:
  "gather_files (filesystem lib) input = (files, msgs) \<Longrightarrow>
     (files \<noteq> [] \<and> cs \<le> co \<longrightarrow>
        main (lib\<lparr>text_splitter := RecursiveCharacterTextSplitter seps\<rparr>) input out cs co =
          \<lparr>ending = Raised configuration_error, stdout = msgs, output_file = None,
           files_opened = []\<rparr>)
     \<and> (files = [] \<longrightarrow>
          main lib input out cs co =
            \<lparr>ending = No_input_files, stdout = msgs @ [''No input files found.''],
             output_file = None, files_opened = []\<rparr>)
     \<and> (files \<noteq> [] \<and> text_splitter lib cs co = Inl e \<longrightarrow>
          main lib input out cs co =
            \<lparr>ending = Raised e, stdout = msgs, output_file = None, files_opened = []\<rparr>)
     \<and> (files \<noteq> [] \<and> text_splitter lib cs co = Inr sp \<and> open_output lib out = None \<longrightarrow>
          ending (main lib input out cs co) = Done
          \<and> output_file (main lib input out cs co) =
              Some (concat (map (\<lambda>p. file_records lib p sp None) files)))"
proof -
  assume g: "gather_files (filesystem lib) input = (files, msgs)"
  have "main (lib\<lparr>text_splitter := RecursiveCharacterTextSplitter seps\<rparr>) input out cs co =
          \<lparr>ending = Raised configuration_error, stdout = msgs, output_file = None,
           files_opened = []\<rparr>"
    if "files \<noteq> []" and "cs \<le> co"
    using that g by (simp add: main_def RecursiveCharacterTextSplitter_def)
  then show ?thesis
    using g main_done [of lib input files msgs cs co sp out]
    by (simp add: main_def)
qed

theorem main_configuration_check_witness:
  "gather_files (filesystem example_lib) [''site''] = ([''site/Page.HTML''], [])
   \<and> [''site/Page.HTML''] \<noteq> []
   \<and> (100::int) \<le> 200
   \<and> main (example_lib\<lparr>text_splitter := RecursiveCharacterTextSplitter example_separators\<rparr>)
         [''site''] ''out.jsonl'' 100 200 =
       \<lparr>ending = Raised configuration_error, stdout = [], output_file = None, files_opened = []\<rparr>
   \<and> main (example_lib\<lparr>text_splitter := RecursiveCharacterTextSplitter example_separators\<rparr>)
         [''site''] ''out.jsonl'' 100 100 =
       \<lparr>ending = Raised configuration_error, stdout = [], output_file = None, files_opened = []\<rparr>
   \<and> ending (main (example_lib\<lparr>text_splitter := RecursiveCharacterTextSplitter example_separators\<rparr>)
         [''site''] ''out.jsonl'' 1000 200) = Done
   \<and> text_splitter example_lib 100 200 = Inl ''chunk_overlap must be smaller than chunk_size''
   \<and> main example_lib [''site''] ''out.jsonl'' 100 200 =
       \<lparr>ending = Raised ''chunk_overlap must be smaller than chunk_size'', stdout = [],
        output_file = None, files_opened = []\<rparr>
   \<and> text_splitter example_lib 1000 200 = Inr splitlines
   \<and> open_output example_lib ''out.jsonl'' = None
   \<and> ending (main example_lib [''site''] ''out.jsonl'' 1000 200) = Done
   \<and> gather_files (filesystem example_lib) [''ghost''] = ([], [''Skipping non-existent path: ghost''])
   \<and> ending (main example_lib [''ghost''] ''out.jsonl'' 1000 200) = No_input_files"
proof -
  have g: "gather_files (filesystem example_lib) [''site''] = ([''site/Page.HTML''], [])"
    by code_simp
  have g0: "gather_files (filesystem example_lib) [''ghost''] = ([], [''Skipping non-existent path: ghost''])"
    by code_simp
  have r: "text_splitter example_lib 100 200 = Inl ''chunk_overlap must be smaller than chunk_size''"
    by (simp add: example_lib_def)
  have s: "text_splitter example_lib 1000 200 = Inr splitlines"
    by (simp add: example_lib_def)
  have w: "open_output example_lib ''out.jsonl'' = None"
    by (simp add: example_lib_def)
  have d: "ending (main (example_lib\<lparr>text_splitter := RecursiveCharacterTextSplitter example_separators\<rparr>)
         [''site''] ''out.jsonl'' 1000 200) = Done"
    by code_simp
  have "main (example_lib\<lparr>text_splitter := RecursiveCharacterTextSplitter example_separators\<rparr>)
         [''site''] ''out.jsonl'' 100 200 =
       \<lparr>ending = Raised configuration_error, stdout = [], output_file = None, files_opened = []\<rparr>"
    using main_configuration_check [OF g, of 100 200 example_separators "''out.jsonl''"] by simp
  moreover have "main (example_lib\<lparr>text_splitter := RecursiveCharacterTextSplitter example_separators\<rparr>)
         [''site''] ''out.jsonl'' 100 100 =
       \<lparr>ending = Raised configuration_error, stdout = [], output_file = None, files_opened = []\<rparr>"
    using main_configuration_check [OF g, of 100 100 example_separators "''out.jsonl''"] by simp
  moreover have "main example_lib [''site''] ''out.jsonl'' 100 200 =
       \<lparr>ending = Raised ''chunk_overlap must be smaller than chunk_size'', stdout = [],
        output_file = None, files_opened = []\<rparr>"
    using main_configuration_check [OF g, of 100 200 _ "''out.jsonl''"] r by simp
  moreover have "ending (main example_lib [''site''] ''out.jsonl'' 1000 200) = Done"
    using main_configuration_check [OF g, of 1000 200 _ "''out.jsonl''" _ splitlines] s w by simp
  moreover have "ending (main example_lib [''ghost''] ''out.jsonl'' 1000 200) = No_input_files"
    using main_configuration_check [OF g0, of 1000 200 _ "''out.jsonl''"] by simp
  ultimately show ?thesis using g g0 r s w d by simp
qed

section \<open>Properties of the splitter of the specification\<close>

lemma content_within:
  "short cs (sp tx) \<Longrightarrow> r \<in> set (map (entry meta) (List.enumerate n (sp tx))) \<Longrightarrow>
     \<exists>c. content_of r = Some (JStr c) \<and> length c \<le> cs"
  by (auto simp: short_def list_all_iff content_of_entry in_set_enumerate_eq)

lemma short_simps:
  "short cs []"
  "short cs (c # chunks) \<longleftrightarrow> length c \<le> cs \<and> short cs chunks"
  "short cs (xs @ ys) \<longleftrightarrow> short cs xs \<and> short cs ys"
  by (simp_all add: short_def)

lemma carry_fits:
  "length f \<le> cs \<Longrightarrow> length (join sep (carry cs co sep buf f @ [f])) \<le> cs"
  by (induction buf) simp_all

lemma short_flush: "buf = [] \<or> length (join sep buf) \<le> cs \<Longrightarrow> short cs (flush sep buf)"
  by (auto simp: flush_def short_simps)

lemma short_pack:
  "list_all (small_piece cs) ps \<Longrightarrow> buf = [] \<or> length (join sep buf) \<le> cs \<Longrightarrow>
     short cs (pack cs co sep buf ps)"
proof (induction cs co sep buf ps rule: pack.induct)
  case (1 cs co sep buf)
  then show ?case by (simp add: short_flush)
next
  case (2 cs co sep buf sub ps)
  then show ?case by (simp add: short_simps short_flush)
next
  case (3 cs co sep buf f ps)
  from "3.prems" have f: "length f \<le> cs" and ps: "list_all (small_piece cs) ps"
    by simp_all
  show ?case
  proof (cases "buf = []")
    case True
    with 3(1) [OF True ps] f show ?thesis by simp
  next
    case False
    show ?thesis
    proof (cases "length (join sep (buf @ [f])) \<le> cs")
      case True
      with 3(2) [OF False True ps] False show ?thesis by simp
    next
      case over: False
      have "length (join sep (carry cs co sep buf f @ [f])) \<le> cs"
        using f by (rule carry_fits)
      with 3(3) [OF False over ps] have "short cs (pack cs co sep (carry cs co sep buf f @ [f]) ps)"
        by blast
      moreover from "3.prems"(2) False have "length (join sep buf) \<le> cs" by blast
      ultimately show ?thesis using False over by (simp add: short_simps)
    qed
  qed
qed

lemma short_fallback_cut:
  "co < cs \<Longrightarrow> short cs (fallback_cut cs co tx)"
proof (induction cs co tx rule: fallback_cut.induct)
  case (1 cs co tx)
  show ?case
  proof (cases "length tx \<le> cs")
    case True
    then show ?thesis by (subst fallback_cut.simps) (simp add: short_simps)
  next
    case False
    with 1 have "short cs (fallback_cut cs co (drop (cs - co) tx))" by simp
    with False "1.prems" show ?thesis
      by (subst fallback_cut.simps) (simp add: short_simps)
  qed
qed

lemma fallback_cut_butlast_exact:
  "co < cs \<Longrightarrow> list_all (\<lambda>c. length c = cs) (butlast (fallback_cut cs co tx))"
proof (induction cs co tx rule: fallback_cut.induct)
  case (1 cs co tx)
  show ?case
  proof (cases "length tx \<le> cs")
    case True
    then show ?thesis by (subst fallback_cut.simps) simp
  next
    case False
    with 1 have "list_all (\<lambda>c. length c = cs) (butlast (fallback_cut cs co (drop (cs - co) tx)))" by simp
    moreover have "fallback_cut cs co (drop (cs - co) tx) \<noteq> []"
      by (subst fallback_cut.simps) simp
    ultimately show ?thesis
      using False "1.prems" by (subst fallback_cut.simps) simp
  qed
qed

lemma short_split_long:
  "co < cs \<Longrightarrow> short cs (split_long cs co seps tx)"
proof (induction cs co seps tx rule: split_long.induct)
  case (1 cs co seps tx)
  obtain sep rest where sel: "select_separator tx seps = (sep, rest)"
    by (cases "select_separator tx seps")
  show ?case
  proof (cases "sep = []")
    case True
    with sel "1.prems" show ?thesis
      by (subst split_long.simps) (simp add: short_fallback_cut)
  next
    case False
    have "list_all (small_piece cs)
            (map (\<lambda>f. if cs < length f then Chunks (split_long cs co rest f) else Small f)
               (split_on sep tx))"
      unfolding list_all_iff
    proof
      fix p
      assume "p \<in> set (map (\<lambda>f. if cs < length f then Chunks (split_long cs co rest f) else Small f)
               (split_on sep tx))"
      then obtain f where f: "f \<in> set (split_on sep tx)"
        and p: "p = (if cs < length f then Chunks (split_long cs co rest f) else Small f)"
        by auto
      show "small_piece cs p"
      proof (cases "cs < length f")
        case True
        from "1.IH" [OF sel [symmetric] False f True "1.prems"] True p show ?thesis by simp
      next
        case False
        with p show ?thesis by simp
      qed
    qed
    then have "short cs (pack cs co sep []
                 (map (\<lambda>f. if cs < length f then Chunks (split_long cs co rest f) else Small f)
                    (split_on sep tx)))"
      by (rule short_pack) simp
    with sel False show ?thesis
      by (subst split_long.simps) simp
  qed
qed

lemma short_split_text: "co < cs \<Longrightarrow> short cs (split_text tx cs co seps)"
  by (simp add: split_text_def short_split_long short_simps)


text \<open>
  C1, for the splitter as the specification describes it. With an overlap below the chunk
  size, every chunk \<open>split_text\<close> returns is within the chunk size, for every text and
  every list of separators. The pieces of the fallback cut are exactly of the chunk size,
  but for the last one, which holds what remains and is within the chunk size. The content
  of every record \<open>process_file\<close> writes with this splitter is within the chunk size.
\<close>

theorem split_text_chunks_bounded:
  "co < cs \<Longrightarrow>
     (\<forall>c \<in> set (split_text tx cs co seps). length c \<le> cs)
     \<and> (\<forall>c \<in> set (butlast (fallback_cut cs co tx)). length c = cs)
     \<and> fallback_cut cs co tx \<noteq> []
     \<and> length (last (fallback_cut cs co tx)) \<le> cs
     \<and> (\<forall>r \<in> set (file_records lib p (\<lambda>t. split_text t cs co seps) src).
           \<exists>c. content_of r = Some (JStr c) \<and> length c \<le> cs)"
proof -
  assume less: "co < cs"
  have chunks: "short cs (split_text t cs co seps)" for t
    using less by (rule short_split_text)
  have ne: "fallback_cut cs co tx \<noteq> []"
    by (subst fallback_cut.simps) simp
  have "short cs (fallback_cut cs co tx)"
    using less by (rule short_fallback_cut)
  with ne have "length (last (fallback_cut cs co tx)) \<le> cs"
    by (simp add: short_def list_all_iff)
  moreover have "\<forall>c \<in> set (butlast (fallback_cut cs co tx)). length c = cs"
    using fallback_cut_butlast_exact [OF less, of tx] by (simp add: list_all_iff)
  moreover have "\<forall>r \<in> set (file_records lib p (\<lambda>t. split_text t cs co seps) src).
           \<exists>c. content_of r = Some (JStr c) \<and> length c \<le> cs"
  proof
    fix r
    assume "r \<in> set (file_records lib p (\<lambda>t. split_text t cs co seps) src)"
    then obtain t meta where
      "r \<in> set (map (entry meta) (List.enumerate 0 (split_text t cs co seps)))"
      by (auto simp: file_records_cases split: sum.splits prod.splits if_splits)
    with chunks [of t] show "\<exists>c. content_of r = Some (JStr c) \<and> length c \<le> cs"
      by (rule content_within [where sp = "\<lambda>t. split_text t cs co seps"])
  qed
  ultimately show ?thesis
    using chunks [of tx] ne by (simp add: short_def list_all_iff)
qed

theorem split_text_chunks_bounded_witness:
  "(5::nat) < 40
   \<and> split_text (replicate 50 CHR ''A'' @ newline @ newline @ replicate 50 CHR ''B'') 40 5 example_separators =
       [replicate 40 CHR ''A'', replicate 15 CHR ''A'', replicate 40 CHR ''B'', replicate 15 CHR ''B'']
   \<and> list_all (\<lambda>c. length c \<le> 40)
        (split_text (replicate 50 CHR ''A'' @ newline @ newline @ replicate 50 CHR ''B'') 40 5 example_separators)
   \<and> split_text ''one two three four five six seven'' 10 4 example_separators =
       [''one two'', ''two three'', ''four five'', ''five six'', ''six seven'']
   \<and> fallback_cut 4 1 ''abcdefghij'' = [''abcd'', ''defg'', ''ghij'']"
proof -
  have a: "(5::nat) < 40" by simp
  have b: "split_text (replicate 50 CHR ''A'' @ newline @ newline @ replicate 50 CHR ''B'') 40 5 example_separators =
       [replicate 40 CHR ''A'', replicate 15 CHR ''A'', replicate 40 CHR ''B'', replicate 15 CHR ''B'']"
    by code_simp
  have c: "split_text ''one two three four five six seven'' 10 4 example_separators =
       [''one two'', ''two three'', ''four five'', ''five six'', ''six seven'']"
    by code_simp
  have d: "fallback_cut 4 1 ''abcdefghij'' = [''abcd'', ''defg'', ''ghij'']"
    by code_simp
  have "list_all (\<lambda>c. length c \<le> 40)
        (split_text (replicate 50 CHR ''A'' @ newline @ newline @ replicate 50 CHR ''B'') 40 5 example_separators)"
    using split_text_chunks_bounded [OF a,
        of "replicate 50 CHR ''A'' @ newline @ newline @ replicate 50 CHR ''B''" example_separators]
    by (simp add: list_all_iff)
  with a b c d show ?thesis by blast
qed

end
